theory Spec2Isabelle
  imports Complex_Main "HOL-Library.Word" "HOL-Library.Product_Lexorder"
begin

text \<open>
  The Engine Library access code of libdjinterop, embedded function by function: the
  schema versions and their order, the database handle with the creation and the opening
  of the two stores \<^verbatim>\<open>m.db\<close> and \<^verbatim>\<open>p.db\<close>, the performance data of a track, and
  the hierarchy of crates. The definitions come first, the properties after them.
\<close>

section \<open>Schema versions (schema\_version.hpp)\<close>

text \<open>
  A C++ \<^verbatim>\<open>int\<close> is a 32-bit two's complement value: a \<open>32 word\<close> read through
  \<open>sint\<close>. The comparison operators of C++ on \<^verbatim>\<open>int\<close> are the signed ones,
  \<open><s\<close> and \<open>\<le>s\<close> on words.
\<close>

type_synonym cint = "32 word"

text \<open>
  \<^verbatim>\<open>struct schema_version { int maj; int min; int pat; };\<close>
  The field \<^verbatim>\<open>min\<close> is named \<open>min_ver\<close> here, \<open>min\<close> being a constant of HOL.
\<close>

record schema_version =
  maj :: cint
  min_ver :: cint
  pat :: cint

definition version_firmware_1_0_0 :: schema_version where
  "version_firmware_1_0_0 = \<lparr>maj = 1, min_ver = 6, pat = 0\<rparr>"

definition version_firmware_1_0_3 :: schema_version where
  "version_firmware_1_0_3 = \<lparr>maj = 1, min_ver = 7, pat = 1\<rparr>"

definition version_latest :: schema_version where
  "version_latest = version_firmware_1_0_3"

text \<open>\<^verbatim>\<open>operator ==\<close>\<close>

definition version_eq :: "schema_version \<Rightarrow> schema_version \<Rightarrow> bool" where
  "version_eq a b \<longleftrightarrow> maj a = maj b \<and> min_ver a = min_ver b \<and> pat a = pat b"

text \<open>\<^verbatim>\<open>operator !=\<close>\<close>

definition version_ne :: "schema_version \<Rightarrow> schema_version \<Rightarrow> bool" where
  "version_ne a b \<longleftrightarrow> \<not> (maj a = maj b \<and> min_ver a = min_ver b \<and> pat a = pat b)"

text \<open>\<^verbatim>\<open>operator >=\<close>\<close>

definition version_ge :: "schema_version \<Rightarrow> schema_version \<Rightarrow> bool" where
  "version_ge a b =
     (if maj a \<noteq> maj b then maj b <s maj a
      else if min_ver a \<noteq> min_ver b then min_ver b <s min_ver a
      else pat b \<le>s pat a)"

text \<open>\<^verbatim>\<open>operator >\<close>\<close>

definition version_gt :: "schema_version \<Rightarrow> schema_version \<Rightarrow> bool" where
  "version_gt a b =
     (if maj a \<noteq> maj b then maj b <s maj a
      else if min_ver a \<noteq> min_ver b then min_ver b <s min_ver a
      else pat b <s pat a)"

text \<open>\<^verbatim>\<open>operator <=\<close>\<close>

definition version_le :: "schema_version \<Rightarrow> schema_version \<Rightarrow> bool" where
  "version_le a b =
     (if maj a \<noteq> maj b then maj a <s maj b
      else if min_ver a \<noteq> min_ver b then min_ver a <s min_ver b
      else pat a \<le>s pat b)"

text \<open>\<^verbatim>\<open>operator <\<close>\<close>

definition version_lt :: "schema_version \<Rightarrow> schema_version \<Rightarrow> bool" where
  "version_lt a b =
     (if maj a \<noteq> maj b then maj a <s maj b
      else if min_ver a \<noteq> min_ver b then min_ver a <s min_ver b
      else pat a <s pat b)"

text \<open>The triple of a version, each component read as the signed integer it is.\<close>

definition triple :: "schema_version \<Rightarrow> int \<times> int \<times> int" where
  "triple v = (sint (maj v), sint (min_ver v), sint (pat v))"

text \<open>
  Modelled from the spec: \<^verbatim>\<open>is_supported\<close> is declared in schema.hpp, which is not
  among the sources. The spec: "A fixed, hardcoded set of versions is known; a version
  outside that set is unsupported", the known versions being the two constants above
  (schema 1.6.0 of firmware 1.0.0 and schema 1.7.1 of firmware 1.0.3).
\<close>

definition is_supported :: "schema_version \<Rightarrow> bool" where
  "is_supported version \<longleftrightarrow>
     version_eq version version_firmware_1_0_0 \<or> version_eq version version_firmware_1_0_3"

section \<open>Errors\<close>

text \<open>
  The exceptions that cross the functions below, as values:
  \<^verbatim>\<open>unsupported_database_version\<close> and \<^verbatim>\<open>database_inconsistency\<close> (schema\_version.hpp),
  \<^verbatim>\<open>database_not_found\<close> (database.hpp), \<^verbatim>\<open>std::runtime_error\<close>, and the exception of
  the SQLite wrapper.
\<close>

datatype error =
    unsupported_database_version string schema_version
  | database_inconsistency string
  | database_not_found string
  | runtime_error string
  | sqlite_exception string

section \<open>The file system and the SQLite stores\<close>

text \<open>
  The row of the \<^verbatim>\<open>Information\<close> table that the constructor of \<^verbatim>\<open>database::impl\<close>
  selects: \<^verbatim>\<open>uuid, schemaVersionMajor, schemaVersionMinor, schemaVersionPatch\<close>.
\<close>

record information_row =
  uuid :: string
  schemaVersionMajor :: cint
  schemaVersionMinor :: cint
  schemaVersionPatch :: cint

text \<open>
  A store file, as far as the code reads it: the rows of its \<^verbatim>\<open>Information\<close> table,
  \<open>None\<close> when the file has no such table.
\<close>

record sqlite_file =
  Information :: "information_row list option"

definition empty_file :: sqlite_file where
  "empty_file = \<lparr>Information = None\<rparr>"

datatype errno = EEXIST | ENOENT | EACCES | ENOSPC

text \<open>
  The part of the world the code touches: the directories, the store files by path, and
  for a path that does not exist the error that \<^verbatim>\<open>mkdir\<close> would fail with there
  (\<open>None\<close> when the directory can be created).
\<close>

record world =
  dirs :: "string set"
  files :: "string \<rightharpoonup> sqlite_file"
  mkdir_error :: "string \<Rightarrow> errno option"

text \<open>
  \<^verbatim>\<open>stat(path, &buf)\<close>: 0 when the path exists, -1 otherwise. The empty path names
  nothing: \<^verbatim>\<open>stat("")\<close> fails (with \<^verbatim>\<open>ENOENT\<close>).
\<close>

definition stat :: "world \<Rightarrow> string \<Rightarrow> int" where
  "stat w path =
     (if path = [] then -1
      else if path \<in> dirs w \<or> path \<in> dom (files w) then 0 else -1)"

text \<open>
  \<^verbatim>\<open>mkdir(path, 0755)\<close>: \<open>Inr ()\<close> is the return value 0, \<open>Inl e\<close> the return value -1
  with \<^verbatim>\<open>errno\<close> set to \<open>e\<close>. \<^verbatim>\<open>mkdir("")\<close> fails with \<^verbatim>\<open>ENOENT\<close>.
\<close>

definition mkdir :: "world \<Rightarrow> string \<Rightarrow> (errno + unit) \<times> world" where
  "mkdir w path =
     (if path = [] then (Inl ENOENT, w)
      else if path \<in> dirs w \<or> path \<in> dom (files w) then (Inl EEXIST, w)
      else case mkdir_error w path of
             Some e \<Rightarrow> (Inl e, w)
           | None \<Rightarrow> (Inr (), w\<lparr>dirs := insert path (dirs w)\<rparr>))"

text \<open>
  \<^verbatim>\<open>sqlite::database db{dir_path + name}\<close>, the name being \<^verbatim>\<open>"/m.db"\<close> or
  \<^verbatim>\<open>"/p.db"\<close>: the wrapper opens the file at the string \<^verbatim>\<open>dir_path + name\<close> read-write
  and creates it when it is not there. With a non-empty \<open>dir_path\<close> that path leads
  through \<open>dir_path\<close>, which has to be a directory. With the empty \<open>dir_path\<close> the path
  is the name itself, a file of the root directory, which is always there. An existing
  file is opened as it is, and a directory cannot be opened. Permissions are not
  modelled: a file can be created in every directory that exists.
\<close>

definition sqlite_open :: "world \<Rightarrow> string \<Rightarrow> string \<Rightarrow> (error + sqlite_file) \<times> world" where
  "sqlite_open w dir_path name =
     (if dir_path \<noteq> [] \<and> dir_path \<notin> dirs w
      then (Inl (sqlite_exception ''unable to open database file''), w)
      else
        (case files w (dir_path @ name) of
           Some db \<Rightarrow> (Inr db, w)
         | None \<Rightarrow>
             if dir_path @ name \<in> dirs w
             then (Inl (sqlite_exception ''unable to open database file''), w)
             else (Inr empty_file, w\<lparr>files := (files w)(dir_path @ name \<mapsto> empty_file)\<rparr>)))"

text \<open>
  \<^verbatim>\<open>m_db << "SELECT uuid, schemaVersionMajor, schemaVersionMinor, schemaVersionPatch
  FROM Information" >> tie(...)\<close>: the statement fails when the table is missing, and the
  extraction into a tuple wants exactly one row.
\<close>

definition select_information :: "sqlite_file \<Rightarrow> error + information_row" where
  "select_information db =
     (case Information db of
        None \<Rightarrow> Inl (sqlite_exception ''no such table: Information'')
      | Some [] \<Rightarrow> Inl (sqlite_exception ''no rows to extract'')
      | Some [r] \<Rightarrow> Inr r
      | Some (r # r' # rs) \<Rightarrow> Inl (sqlite_exception ''more than one row to extract''))"

section \<open>The database handle (database.cpp)\<close>

text \<open>
  \<^verbatim>\<open>struct database::impl\<close>, its members without the trailing underscore:
  \<^verbatim>\<open>dir_path_, db_m_path_, db_p_path_, uuid_, version_\<close>.
\<close>

record database =
  db_dir_path :: string
  db_m_path :: string
  db_p_path :: string
  db_uuid :: string
  db_version :: schema_version

text \<open>
  \<^verbatim>\<open>database::database(dir_path)\<close>, which is \<^verbatim>\<open>impl::impl(dir_path)\<close>: the three paths,
  then the music store is opened and its \<^verbatim>\<open>Information\<close> row read.
\<close>

definition database_ctor :: "world \<Rightarrow> string \<Rightarrow> (error + database) \<times> world" where
  "database_ctor w dir_path =
     (case sqlite_open w dir_path ''/m.db'' of
        (Inl e, w') \<Rightarrow> (Inl e, w')
      | (Inr m_db, w') \<Rightarrow>
          (case select_information m_db of
             Inl e \<Rightarrow> (Inl e, w')
           | Inr r \<Rightarrow>
               (Inr \<lparr>db_dir_path = dir_path,
                     db_m_path = dir_path @ ''/m.db'',
                     db_p_path = dir_path @ ''/p.db'',
                     db_uuid = uuid r,
                     db_version = \<lparr>maj = schemaVersionMajor r,
                                   min_ver = schemaVersionMinor r,
                                   pat = schemaVersionPatch r\<rparr>\<rparr>, w')))"

text \<open>\<^verbatim>\<open>impl::exists()\<close>\<close>

definition database_exists :: "world \<Rightarrow> database \<Rightarrow> bool" where
  "database_exists w db =
     (let m_exists = (stat w (db_m_path db) = 0);
          p_exists = (stat w (db_p_path db) = 0)
      in m_exists \<and> p_exists)"

text \<open>
  The schema functions that \<^verbatim>\<open>create_database\<close> calls are declared in schema.hpp, which
  is not among the sources: they are parameters here. Creating a schema writes to the
  open store and may fail part way, so it returns the store as it left it; verifying
  only reads (the spec: "verify re-derives the expected schema for the store's recorded
  version and fails with DatabaseInconsistency").
\<close>

record schema_ops =
  create_music_schema :: "sqlite_file \<Rightarrow> schema_version \<Rightarrow> (error + unit) \<times> sqlite_file"
  verify_music_schema :: "sqlite_file \<Rightarrow> error + unit"
  create_performance_schema :: "sqlite_file \<Rightarrow> schema_version \<Rightarrow> (error + unit) \<times> sqlite_file"
  verify_performance_schema :: "sqlite_file \<Rightarrow> error + unit"

text \<open>
  \<^verbatim>\<open>create_database\<close>, lines 95 to 105: "Ensure the target directory exists". The
  condition of the inner \<^verbatim>\<open>if\<close> is \<^verbatim>\<open>mkdir(...) == 0 || errno == EEXIST\<close>.
\<close>

definition ensure_directory :: "world \<Rightarrow> string \<Rightarrow> (error + unit) \<times> world" where
  "ensure_directory w dir_path =
     (if stat w dir_path \<noteq> 0 then
        (case mkdir w dir_path of
           (Inr u, w') \<Rightarrow>
             (Inl (runtime_error ''Failed to create directory to hold new database''), w')
         | (Inl e, w') \<Rightarrow>
             if e = EEXIST
             then (Inl (runtime_error ''Failed to create directory to hold new database''), w')
             else (Inr (), w'))
      else (Inr (), w))"

text \<open>
  One of the two blocks "Create schema for m.db" and "Create schema for p.db" (lines
  107 to 121): open the store, create its schema, verify it; the store is closed when
  the block is left, by an exception too, and holds what was written until then.
\<close>

definition create_store ::
  "(sqlite_file \<Rightarrow> schema_version \<Rightarrow> (error + unit) \<times> sqlite_file) \<Rightarrow>
   (sqlite_file \<Rightarrow> error + unit) \<Rightarrow>
   world \<Rightarrow> string \<Rightarrow> string \<Rightarrow> schema_version \<Rightarrow> (error + unit) \<times> world" where
  "create_store create_schema verify_schema w dir_path name version =
     (case sqlite_open w dir_path name of
        (Inl e, w') \<Rightarrow> (Inl e, w')
      | (Inr db, w') \<Rightarrow>
          (case create_schema db version of
             (Inl e, db') \<Rightarrow> (Inl e, w'\<lparr>files := (files w')(dir_path @ name \<mapsto> db')\<rparr>)
           | (Inr u, db') \<Rightarrow>
               (case verify_schema db' of
                  Inl e \<Rightarrow> (Inl e, w'\<lparr>files := (files w')(dir_path @ name \<mapsto> db')\<rparr>)
                | Inr u' \<Rightarrow> (Inr (), w'\<lparr>files := (files w')(dir_path @ name \<mapsto> db')\<rparr>))))"

text \<open>The store that such a block works on: the file as it is, or a new empty one.\<close>

definition opened_store :: "world \<Rightarrow> string \<Rightarrow> string \<Rightarrow> sqlite_file" where
  "opened_store w dir_path name =
     (case files w (dir_path @ name) of Some db \<Rightarrow> db | None \<Rightarrow> empty_file)"

text \<open>\<^verbatim>\<open>create_database(dir_path, version)\<close>\<close>

definition create_database ::
  "schema_ops \<Rightarrow> world \<Rightarrow> string \<Rightarrow> schema_version \<Rightarrow> (error + database) \<times> world" where
  "create_database ops w dir_path version =
     (if \<not> is_supported version
      then (Inl (unsupported_database_version ''Unsupported database version'' version), w)
      else
        (case ensure_directory w dir_path of
           (Inl e, w1) \<Rightarrow> (Inl e, w1)
         | (Inr u1, w1) \<Rightarrow>
             (case create_store (create_music_schema ops) (verify_music_schema ops)
                     w1 dir_path ''/m.db'' version of
                (Inl e, w2) \<Rightarrow> (Inl e, w2)
              | (Inr u2, w2) \<Rightarrow>
                  (case create_store (create_performance_schema ops)
                          (verify_performance_schema ops) w2 dir_path ''/p.db'' version of
                     (Inl e, w3) \<Rightarrow> (Inl e, w3)
                   | (Inr u3, w3) \<Rightarrow> database_ctor w3 dir_path))))"

text \<open>
  Modelled from the spec: \<^verbatim>\<open>create_music_schema\<close> (schema.hpp) is not among the
  sources. The spec: "each music store contains exactly one information row carrying a
  UUID (library instance identity, generated once at creation) and the three-part schema
  version". The generated UUID is the parameter \<open>u\<close>.
\<close>

definition spec_create_music_schema ::
  "string \<Rightarrow> sqlite_file \<Rightarrow> schema_version \<Rightarrow> (error + unit) \<times> sqlite_file" where
  "spec_create_music_schema u db version =
     (Inr (), db\<lparr>Information :=
        Some [\<lparr>uuid = u, schemaVersionMajor = maj version,
               schemaVersionMinor = min_ver version,
               schemaVersionPatch = pat version\<rparr>]\<rparr>)"

text \<open>
  Schema functions for the examples: the music schema of the spec with a fixed UUID, a
  performance schema that writes nothing the code reads, and verification that accepts.
\<close>

definition sample_ops :: schema_ops where
  "sample_ops =
     \<lparr>create_music_schema = spec_create_music_schema ''0d3c1a8e'',
      verify_music_schema = (\<lambda>db. Inr ()),
      create_performance_schema = (\<lambda>db version. (Inr (), db)),
      verify_performance_schema = (\<lambda>db. Inr ())\<rparr>"

text \<open>The same with a music schema whose verification fails, and with a performance
  schema whose verification fails.\<close>

definition music_rejecting_ops :: schema_ops where
  "music_rejecting_ops =
     sample_ops\<lparr>verify_music_schema := (\<lambda>db. Inl (database_inconsistency ''Track''))\<rparr>"

definition performance_rejecting_ops :: schema_ops where
  "performance_rejecting_ops =
     sample_ops\<lparr>verify_performance_schema :=
                  (\<lambda>db. Inl (database_inconsistency ''PerformanceData''))\<rparr>"

text \<open>A world with the one directory \<open>d\<close> and the given files, where \<^verbatim>\<open>mkdir\<close> can
  create any directory.\<close>

definition world_of :: "string \<Rightarrow> (string \<rightharpoonup> sqlite_file) \<Rightarrow> world" where
  "world_of d fs = \<lparr>dirs = {d}, files = fs, mkdir_error = (\<lambda>p. None)\<rparr>"

text \<open>A world without any directory or file, where \<^verbatim>\<open>mkdir\<close> can create any directory.\<close>

definition empty_world :: world where
  "empty_world = \<lparr>dirs = {}, files = Map.empty, mkdir_error = (\<lambda>p. None)\<rparr>"


text \<open>A music store holding the one \<^verbatim>\<open>Information\<close> row of the given version.\<close>

definition music_store :: "string \<Rightarrow> schema_version \<Rightarrow> sqlite_file" where
  "music_store u version =
     \<lparr>Information = Some [\<lparr>uuid = u, schemaVersionMajor = maj version,
                            schemaVersionMinor = min_ver version,
                            schemaVersionPatch = pat version\<rparr>]\<rparr>"

section \<open>Performance data (performance\_data.hpp)\<close>

text \<open>
  A C++ \<^verbatim>\<open>double\<close> is the type variable \<open>'d\<close>, and the arithmetic on doubles is a
  parameter: multiplication, division, subtraction and the conversion from \<^verbatim>\<open>int\<close>,
  which the code of \<^verbatim>\<open>bpm\<close> uses, and addition and rounding up to an integer
  (\<^verbatim>\<open>std::ceil\<close> and the conversion to \<^verbatim>\<open>int\<close>), which normalising a beat grid needs.
  Nothing is assumed of them, so what is proved for all operations holds for the IEEE
  operations and for exact arithmetic alike.
\<close>

record 'd double_ops =
  d_mul :: "'d \<Rightarrow> 'd \<Rightarrow> 'd"
  d_div :: "'d \<Rightarrow> 'd \<Rightarrow> 'd"
  d_sub :: "'d \<Rightarrow> 'd \<Rightarrow> 'd"
  d_of_int :: "int \<Rightarrow> 'd"
  d_add :: "'d \<Rightarrow> 'd \<Rightarrow> 'd"
  d_ceil :: "'d \<Rightarrow> int"

text \<open>\<^verbatim>\<open>struct track_beat_grid\<close>\<close>

record 'd track_beat_grid =
  first_beat_index :: cint
  first_beat_sample_offset :: 'd
  last_beat_index :: cint
  last_beat_sample_offset :: 'd

text \<open>
  \<^verbatim>\<open>struct track_hot_cue_point\<close>; \<^verbatim>\<open>pad_colour\<close> (pad\_colour.hpp, not among the
  sources) is the type variable \<open>'c\<close>.
\<close>

record ('d, 'c) track_hot_cue_point =
  is_set :: bool
  label :: string
  sample_offset :: 'd
  colour :: 'c

text \<open>
  The default constructor of \<^verbatim>\<open>track_hot_cue_point\<close>:
  \<^verbatim>\<open>is_set{false}, label{}, sample_offset{-1}, colour{}\<close>; \<open>c0\<close> is the
  value-initialised \<^verbatim>\<open>pad_colour\<close>.
\<close>

definition default_hot_cue :: "'d double_ops \<Rightarrow> 'c \<Rightarrow> ('d, 'c) track_hot_cue_point" where
  "default_hot_cue ops c0 =
     \<lparr>is_set = False, label = [], sample_offset = d_of_int ops (-1), colour = c0\<rparr>"

text \<open>\<^verbatim>\<open>struct track_loop\<close>, with its fields \<^verbatim>\<open>label\<close> and \<^verbatim>\<open>colour\<close> prefixed.\<close>

record ('d, 'c) track_loop =
  is_start_set :: bool
  is_end_set :: bool
  loop_label :: string
  start_sample_offset :: 'd
  end_sample_offset :: 'd
  loop_colour :: 'c

text \<open>
  The default constructor of \<^verbatim>\<open>track_loop\<close>: \<^verbatim>\<open>is_start_set{false}, is_end_set{false},
  label{}, start_sample_offset{-1}, end_sample_offset{-1}, colour{}\<close>.
\<close>

definition default_loop :: "'d double_ops \<Rightarrow> 'c \<Rightarrow> ('d, 'c) track_loop" where
  "default_loop ops c0 =
     \<lparr>is_start_set = False, is_end_set = False, loop_label = [],
      start_sample_offset = d_of_int ops (-1), end_sample_offset = d_of_int ops (-1),
      loop_colour = c0\<rparr>"

text \<open>\<^verbatim>\<open>track_loop::is_set()\<close>\<close>

definition loop_is_set :: "('d, 'c) track_loop \<Rightarrow> bool" where
  "loop_is_set l \<longleftrightarrow> is_start_set l \<and> is_end_set l"

text \<open>
  \<^verbatim>\<open>class performance_data\<close>: one field for each getter of the class (its
  \<^verbatim>\<open>impl\<close> is not among the sources); \<^verbatim>\<open>musical_key\<close> is the type variable \<open>'k\<close>, and
  the two iterator pairs are the lists \<open>hot_cues\<close> and \<open>loops\<close>.
\<close>

record ('d, 'c, 'k) performance_data =
  track_id :: cint
  sample_rate :: 'd
  total_samples :: "64 word"
  key :: 'k
  average_loudness :: 'd
  default_beat_grid :: "'d track_beat_grid"
  adjusted_beat_grid :: "'d track_beat_grid"
  hot_cues :: "('d, 'c) track_hot_cue_point list"
  default_main_cue_sample_offset :: 'd
  adjusted_main_cue_sample_offset :: 'd
  loops :: "('d, 'c) track_loop list"

text \<open>
  \<^verbatim>\<open>performance_data::bpm()\<close>. The difference of the two beat indices is a subtraction
  of \<^verbatim>\<open>int\<close>s, converted to \<^verbatim>\<open>double\<close> by the cast; \<^verbatim>\<open>return 0\<close> and the factor
  \<^verbatim>\<open>60\<close> are \<^verbatim>\<open>int\<close> literals converted to \<^verbatim>\<open>double\<close>; \<^verbatim>\<open>*\<close> and \<^verbatim>\<open>/\<close> associate to
  the left.
\<close>

definition bpm :: "'d double_ops \<Rightarrow> ('d, 'c, 'k) performance_data \<Rightarrow> 'd" where
  "bpm ops p =
     (if last_beat_index (adjusted_beat_grid p) - first_beat_index (adjusted_beat_grid p) = 0
      then d_of_int ops 0
      else
        d_div ops
          (d_mul ops
             (d_mul ops (sample_rate p) (d_of_int ops 60))
             (d_of_int ops
                (sint (last_beat_index (adjusted_beat_grid p)
                       - first_beat_index (adjusted_beat_grid p)))))
          (d_sub ops
             (last_beat_sample_offset (adjusted_beat_grid p))
             (first_beat_sample_offset (adjusted_beat_grid p))))"

text \<open>
  The formula of the spec, "\<^verbatim>\<open>sample_rate * 60 * (last_index - first_index) /
  (last_offset - first_offset)\<close>", the indices being integers.
\<close>

definition spec_bpm_formula :: "'d double_ops \<Rightarrow> 'd \<Rightarrow> int \<Rightarrow> 'd \<Rightarrow> int \<Rightarrow> 'd \<Rightarrow> 'd" where
  "spec_bpm_formula ops rate first_index first_offset last_index last_offset =
     d_div ops
       (d_mul ops (d_mul ops rate (d_of_int ops 60)) (d_of_int ops (last_index - first_index)))
       (d_sub ops last_offset first_offset)"

text \<open>
  Exact arithmetic on the reals, one instance of the operations. Division by zero has no
  meaning here (in HOL it is 0, on doubles an infinity or a NaN): what is stated of
  \<open>real_ops\<close> is stated where no divisor is zero.
\<close>

definition real_ops :: "real double_ops" where
  "real_ops = \<lparr>d_mul = (*), d_div = (/), d_sub = (-), d_of_int = of_int,
                d_add = (+), d_ceil = ceiling\<rparr>"

text \<open>An integer that an \<^verbatim>\<open>int\<close> holds.\<close>

definition int_fits :: "int \<Rightarrow> bool" where
  "int_fits k \<longleftrightarrow> - (2 ^ 31) \<le> k \<and> k < 2 ^ 31"






text \<open>
  Modelled from the spec: the bodies of \<^verbatim>\<open>set_hot_cues\<close> and \<^verbatim>\<open>set_loops\<close> are not
  among the sources (performance\_data.hpp declares them: "If more than 8 are supplied,
  only the first 8 will be considered"). The spec: "slot counts are fixed at 8 regardless
  of how many are supplied: excess input is truncated, absent input leaves a slot in the
  unset state". \<open>fill_slots n d xs\<close> walks the \<open>n\<close> slots, taking the next supplied
  entry while there is one and the default \<open>d\<close> after that.
\<close>

fun fill_slots :: "nat \<Rightarrow> 'a \<Rightarrow> 'a list \<Rightarrow> 'a list" where
  "fill_slots 0 d xs = []"
| "fill_slots (Suc n) d [] = d # fill_slots n d []"
| "fill_slots (Suc n) d (x # xs) = x # fill_slots n d xs"

definition set_hot_cues ::
  "'d double_ops \<Rightarrow> 'c \<Rightarrow> ('d, 'c, 'k) performance_data \<Rightarrow>
   ('d, 'c) track_hot_cue_point list \<Rightarrow> ('d, 'c, 'k) performance_data" where
  "set_hot_cues ops c0 p cues = p\<lparr>hot_cues := fill_slots 8 (default_hot_cue ops c0) cues\<rparr>"

definition set_loops ::
  "'d double_ops \<Rightarrow> 'c \<Rightarrow> ('d, 'c, 'k) performance_data \<Rightarrow>
   ('d, 'c) track_loop list \<Rightarrow> ('d, 'c, 'k) performance_data" where
  "set_loops ops c0 p ls = p\<lparr>loops := fill_slots 8 (default_loop ops c0) ls\<rparr>"

text \<open>
  Values for the examples, on the reals: the beat grid and the record of the scenario of
  the spec (sample rate 44100, 16140600 samples, grid \<open>(-4, -83316.78, 812,
  17470734.439)\<close>), a hot cue and a loop that are set.
\<close>

definition sample_grid :: "real track_beat_grid" where
  "sample_grid = \<lparr>first_beat_index = -4, first_beat_sample_offset = -83316.78,
                   last_beat_index = 812, last_beat_sample_offset = 17470734.439\<rparr>"

definition sample_data :: "real track_beat_grid \<Rightarrow> (real, unit, unit) performance_data" where
  "sample_data g =
     \<lparr>track_id = 1, sample_rate = 44100, total_samples = 16140600, key = (),
      average_loudness = 0.5, default_beat_grid = g, adjusted_beat_grid = g,
      hot_cues = [], default_main_cue_sample_offset = 2732,
      adjusted_main_cue_sample_offset = 2732, loops = []\<rparr>"

text \<open>
  More values for the examples: a record of sample rate 1 whose beat indices are \<open>-1\<close>
  and the largest \<^verbatim>\<open>int\<close>, a grid of 100 samples per beat that ends before the end
  of its track, and one that lies wholly past the end of its track.
\<close>

definition wide_data :: "(real, unit, unit) performance_data" where
  "wide_data =
     (sample_data \<lparr>first_beat_index = - 1, first_beat_sample_offset = 0,
                   last_beat_index = 2147483647, last_beat_sample_offset = 1\<rparr>)
       \<lparr>sample_rate := 1\<rparr>"



definition sample_cue :: "int \<Rightarrow> (real, unit) track_hot_cue_point" where
  "sample_cue n = \<lparr>is_set = True, label = ''Cue'', sample_offset = of_int n * 1000, colour = ()\<rparr>"

definition sample_loop :: "int \<Rightarrow> (real, unit) track_loop" where
  "sample_loop n =
     \<lparr>is_start_set = True, is_end_set = True, loop_label = ''Loop'',
      start_sample_offset = of_int n * 1000, end_sample_offset = of_int n * 1000 + 500,
      loop_colour = ()\<rparr>"

section \<open>Crates\<close>

text \<open>
  Modelled from the spec: no source of the crate operations is among the sources. The
  spec: a crate is "identified by an integer id; has a name, an ordered or unordered set
  of member track ids, and at most one parent crate (nullable)"; crates live in "an arena
  of tracks/crates keyed by id plus explicit liveness checks on every access", a stale id
  giving "an explicit not-found/invalidated error".
\<close>

record crate =
  crate_name :: string
  crate_tracks :: "int list"
  crate_parent :: "int option"

record crate_db =
  crates :: "int \<rightharpoonup> crate"
  next_crate_id :: int

datatype crate_error = CycleDetected | InvalidatedObject

definition empty_crate_db :: crate_db where
  "empty_crate_db = \<lparr>crates = Map.empty, next_crate_id = 1\<rparr>"

text \<open>The parent of a crate id: \<open>None\<close> for a root crate and for an id that is not live.\<close>

definition parent_of :: "crate_db \<Rightarrow> int \<Rightarrow> int option" where
  "parent_of db c = (case crates db c of None \<Rightarrow> None | Some cr \<Rightarrow> crate_parent cr)"

text \<open>The parent relation, from a crate to its parent, and the forest invariant of the spec:
  "no crate may be its own ancestor".\<close>

definition parent_rel :: "crate_db \<Rightarrow> (int \<times> int) set" where
  "parent_rel db = {(c, p). parent_of db c = Some p}"

definition forest :: "crate_db \<Rightarrow> bool" where
  "forest db \<longleftrightarrow> (\<forall>c. (c, c) \<notin> (parent_rel db)\<^sup>+)"

text \<open>\<open>d\<close> is a descendant of \<open>c\<close>: \<open>c\<close> is reached from \<open>d\<close> by one or more parent steps.\<close>

definition descendant_of :: "crate_db \<Rightarrow> int \<Rightarrow> int \<Rightarrow> bool" where
  "descendant_of db d c \<longleftrightarrow> (d, c) \<in> (parent_rel db)\<^sup>+"

text \<open>The spec: "\<^verbatim>\<open>create(name)\<close> creates a parentless crate", with a new id.\<close>

definition create_crate :: "crate_db \<Rightarrow> string \<Rightarrow> int \<times> crate_db" where
  "create_crate db name =
     (next_crate_id db,
      db\<lparr>crates := (crates db)(next_crate_id db \<mapsto>
                      \<lparr>crate_name = name, crate_tracks = [], crate_parent = None\<rparr>),
         next_crate_id := next_crate_id db + 1\<rparr>)"

text \<open>
  The spec: "detection walks the ancestor chain of the proposed parent and rejects if
  self's id appears in it". The walk starts at the proposed parent \<open>cur\<close> and follows
  the parent links; on a hierarchy with a cycle that avoids \<open>self\<close> it does not return,
  which is the value \<open>None\<close>.
\<close>

partial_function (option) ancestor_chain_has :: "crate_db \<Rightarrow> int \<Rightarrow> int \<Rightarrow> bool option" where
  "ancestor_chain_has db self cur =
     (if cur = self then Some True
      else case parent_of db cur of
             None \<Rightarrow> Some False
           | Some p \<Rightarrow> ancestor_chain_has db self p)"

text \<open>
  The spec: "\<^verbatim>\<open>set_parent(other)\<close> fails with \<^verbatim>\<open>CycleDetected\<close> if \<^verbatim>\<open>other\<close> is
  \<^verbatim>\<open>self\<close> or a descendant of \<^verbatim>\<open>self\<close>", "rejected before any write". Both ids are
  checked for liveness first.
\<close>

definition set_parent ::
  "crate_db \<Rightarrow> int \<Rightarrow> int \<Rightarrow> ((crate_error + unit) \<times> crate_db) option" where
  "set_parent db self other =
     (case crates db self of
        None \<Rightarrow> Some (Inl InvalidatedObject, db)
      | Some cr \<Rightarrow>
          (case crates db other of
             None \<Rightarrow> Some (Inl InvalidatedObject, db)
           | Some po \<Rightarrow>
               (case ancestor_chain_has db self other of
                  None \<Rightarrow> None
                | Some True \<Rightarrow> Some (Inl CycleDetected, db)
                | Some False \<Rightarrow>
                    Some (Inr (),
                          db\<lparr>crates := (crates db)(self \<mapsto> cr\<lparr>crate_parent := Some other\<rparr>)\<rparr>))))"

text \<open>
  The spec: removing a crate must "promote children to the removed crate's parent (never
  silently orphan with a dangling parent reference, and never cascade-delete children)".
\<close>

definition promote :: "int \<Rightarrow> int option \<Rightarrow> crate \<Rightarrow> crate" where
  "promote c new_parent cr =
     (if crate_parent cr = Some c then cr\<lparr>crate_parent := new_parent\<rparr> else cr)"

definition remove_crate :: "crate_db \<Rightarrow> int \<Rightarrow> (crate_error + unit) \<times> crate_db" where
  "remove_crate db c =
     (case crates db c of
        None \<Rightarrow> (Inl InvalidatedObject, db)
      | Some cr \<Rightarrow>
          (Inr (),
           db\<lparr>crates := (\<lambda>x. if x = c then None
                               else map_option (promote c (crate_parent cr)) (crates db x))\<rparr>))"

text \<open>The hierarchies that the three operations build from the empty one.\<close>

inductive reachable :: "crate_db \<Rightarrow> bool" where
  reachable_empty: "reachable empty_crate_db"
| reachable_create: "reachable db \<Longrightarrow> reachable (snd (create_crate db name))"
| reachable_set_parent:
    "reachable db \<Longrightarrow> set_parent db self other = Some (r, db') \<Longrightarrow> reachable db'"
| reachable_remove: "reachable db \<Longrightarrow> reachable (snd (remove_crate db c))"

text \<open>
  Two hierarchies for the examples: the crates A (id 1) and B (id 2) without parents, and
  the same with A the parent of B.
\<close>

definition crates_a_b :: crate_db where
  "crates_a_b =
     \<lparr>crates = [1 \<mapsto> \<lparr>crate_name = ''A'', crate_tracks = [], crate_parent = None\<rparr>,
                2 \<mapsto> \<lparr>crate_name = ''B'', crate_tracks = [], crate_parent = None\<rparr>],
      next_crate_id = 3\<rparr>"

definition crates_a_over_b :: crate_db where
  "crates_a_over_b =
     \<lparr>crates = [1 \<mapsto> \<lparr>crate_name = ''A'', crate_tracks = [], crate_parent = None\<rparr>,
                2 \<mapsto> \<lparr>crate_name = ''B'', crate_tracks = [], crate_parent = Some 1\<rparr>],
      next_crate_id = 3\<rparr>"

section \<open>Facts about the version order\<close>

lemma sint_cint_eq_iff: "sint (x :: cint) = sint y \<longleftrightarrow> x = y"
  by (auto intro: signed_word_eqI)

lemma version_lt_triple: "version_lt a b \<longleftrightarrow> triple a < triple b"
  using sint_cint_eq_iff [of "maj a" "maj b"] sint_cint_eq_iff [of "min_ver a" "min_ver b"]
  by (auto simp: version_lt_def triple_def word_sless_alt)

lemma version_gt_triple: "version_gt a b \<longleftrightarrow> triple b < triple a"
  using sint_cint_eq_iff [of "maj a" "maj b"] sint_cint_eq_iff [of "min_ver a" "min_ver b"]
  by (auto simp: version_gt_def triple_def word_sless_alt)

lemma version_le_triple: "version_le a b \<longleftrightarrow> triple a \<le> triple b"
  using sint_cint_eq_iff [of "maj a" "maj b"] sint_cint_eq_iff [of "min_ver a" "min_ver b"]
  by (auto simp: version_le_def triple_def word_sless_alt word_sle_eq)

lemma version_ge_triple: "version_ge a b \<longleftrightarrow> triple b \<le> triple a"
  using sint_cint_eq_iff [of "maj a" "maj b"] sint_cint_eq_iff [of "min_ver a" "min_ver b"]
  by (auto simp: version_ge_def triple_def word_sless_alt word_sle_eq)

lemma version_eq_triple: "version_eq a b \<longleftrightarrow> triple a = triple b"
  by (auto simp: version_eq_def triple_def sint_cint_eq_iff)

lemma version_ne_triple: "version_ne a b \<longleftrightarrow> triple a \<noteq> triple b"
  by (auto simp: version_ne_def triple_def sint_cint_eq_iff)

lemma version_eq_iff: "version_eq a b \<longleftrightarrow> a = b"
  by (cases a, cases b) (auto simp: version_eq_def)

lemma is_supported_iff:
  "is_supported V \<longleftrightarrow> V = version_firmware_1_0_0 \<or> V = version_firmware_1_0_3"
  by (simp add: is_supported_def version_eq_iff)

section \<open>Facts about the file system, the stores and the handle\<close>

lemma stat_nonzero_iff:
  "stat w p \<noteq> 0 \<longleftrightarrow> p = [] \<or> p \<notin> dirs w \<and> p \<notin> dom (files w)"
  by (simp add: stat_def)

lemma sqlite_open_no_dir:
  "d \<noteq> [] \<Longrightarrow> d \<notin> dirs w \<Longrightarrow> sqlite_open w d name = (Inl (sqlite_exception ''unable to open database file''), w)"
  by (simp add: sqlite_open_def)

lemma sqlite_open_files:
  assumes "sqlite_open w d name = (Inr db, w')"
  shows "d = [] \<or> d \<in> dirs w" and "db = opened_store w d name"
    and "w'\<lparr>files := (files w')(d @ name \<mapsto> x)\<rparr> = w\<lparr>files := (files w)(d @ name \<mapsto> x)\<rparr>"
  using assms
  by (auto simp: sqlite_open_def opened_store_def split: if_splits option.splits)

lemma sqlite_open_present:
  "d = [] \<or> d \<in> dirs w \<Longrightarrow> files w (d @ name) = Some db \<Longrightarrow> sqlite_open w d name = (Inr db, w)"
  by (simp add: sqlite_open_def)

lemma sqlite_open_creatable:
  "d = [] \<or> d \<in> dirs w \<Longrightarrow> d @ name \<notin> dirs w \<Longrightarrow>
   \<exists>w'. sqlite_open w d name = (Inr (opened_store w d name), w')"
  by (auto simp: sqlite_open_def opened_store_def split: option.splits)

lemma sqlite_open_error:
  "sqlite_open w d name = (Inl e, w') \<Longrightarrow> \<exists>s. e = sqlite_exception s"
  by (auto simp: sqlite_open_def split: if_splits option.splits)

lemma select_information_error:
  "select_information db = Inl e \<Longrightarrow> \<exists>s. e = sqlite_exception s"
  by (auto simp: select_information_def split: option.splits list.splits)

lemma opened_store_other:
  "p \<noteq> d @ name \<Longrightarrow> opened_store (w\<lparr>files := (files w)(p \<mapsto> x)\<rparr>) d name = opened_store w d name"
  by (simp add: opened_store_def)

lemma ensure_directory_missing:
  assumes "stat w d \<noteq> 0"
  shows "(\<exists>e. ensure_directory w d = (Inl e, w\<lparr>dirs := insert d (dirs w)\<rparr>) \<and> mkdir_error w d = None)
         \<or> (\<exists>e. ensure_directory w d = (Inl e, w))
         \<or> ensure_directory w d = (Inr (), w)"
  using assms
  by (auto simp: ensure_directory_def mkdir_def stat_def split: option.splits)

lemma ensure_directory_ok:
  assumes "ensure_directory w d = (Inr u, w1)"
  shows "w1 = w"
  using assms
  by (auto simp: ensure_directory_def mkdir_def split: if_splits option.splits prod.splits sum.splits)

lemma ensure_directory_there:
  "d = [] \<or> d \<in> dirs w \<Longrightarrow> ensure_directory w d = (Inr (), w)"
  by (auto simp: ensure_directory_def stat_def mkdir_def)

lemma create_store_no_dir:
  "d \<noteq> [] \<Longrightarrow> d \<notin> dirs w \<Longrightarrow> create_store cr vf w d name V = (Inl (sqlite_exception ''unable to open database file''), w)"
  by (simp add: create_store_def sqlite_open_no_dir)

lemma create_store_ok:
  assumes "create_store cr vf w d name V = (Inr u, w')"
  shows "(d = [] \<or> d \<in> dirs w) \<and>
         (\<exists>db'. cr (opened_store w d name) V = (Inr (), db') \<and> vf db' = Inr ()
                \<and> w' = w\<lparr>files := (files w)(d @ name \<mapsto> db')\<rparr>)"
proof -
  from assms obtain db w1 where o: "sqlite_open w d name = (Inr db, w1)"
    by (auto simp: create_store_def split: prod.splits sum.splits)
  note f = sqlite_open_files [OF o]
  from assms o f show ?thesis
    by (auto simp: create_store_def split: prod.splits sum.splits)
qed

lemma create_store_verify_fails:
  assumes "d = [] \<or> d \<in> dirs w" and "d @ name \<notin> dirs w"
    and "cr (opened_store w d name) V = (Inr (), db')" and "vf db' = Inl e"
  shows "create_store cr vf w d name V = (Inl e, w\<lparr>files := (files w)(d @ name \<mapsto> db')\<rparr>)"
proof -
  from sqlite_open_creatable [OF assms(1,2)] obtain w1
    where o: "sqlite_open w d name = (Inr (opened_store w d name), w1)" by blast
  note f = sqlite_open_files(3) [OF o]
  from o assms(3,4) f show ?thesis
    by (simp add: create_store_def)
qed

lemma create_store_succeeds:
  assumes "d = [] \<or> d \<in> dirs w" and "d @ name \<notin> dirs w"
    and "cr (opened_store w d name) V = (Inr (), db')" and "vf db' = Inr ()"
  shows "create_store cr vf w d name V = (Inr (), w\<lparr>files := (files w)(d @ name \<mapsto> db')\<rparr>)"
proof -
  from sqlite_open_creatable [OF assms(1,2)] obtain w1
    where o: "sqlite_open w d name = (Inr (opened_store w d name), w1)" by blast
  note f = sqlite_open_files(3) [OF o]
  from o assms(3,4) f show ?thesis
    by (simp add: create_store_def)
qed

lemma database_ctor_ok:
  assumes "database_ctor w d = (Inr h, w')"
  shows "\<exists>r. select_information (opened_store w d ''/m.db'') = Inr r
            \<and> db_version h = \<lparr>maj = schemaVersionMajor r, min_ver = schemaVersionMinor r,
                               pat = schemaVersionPatch r\<rparr>
            \<and> db_uuid h = uuid r \<and> db_dir_path h = d
            \<and> db_m_path h = d @ ''/m.db'' \<and> db_p_path h = d @ ''/p.db''"
proof -
  from assms obtain db w1 where o: "sqlite_open w d ''/m.db'' = (Inr db, w1)"
    by (auto simp: database_ctor_def split: prod.splits sum.splits)
  note f = sqlite_open_files(2) [OF o]
  from assms o f show ?thesis
    by (auto simp: database_ctor_def split: prod.splits sum.splits)
qed

lemma database_ctor_present:
  assumes "d = [] \<or> d \<in> dirs w" and "files w (d @ ''/m.db'') = Some db" and "select_information db = Inr r"
  shows "database_ctor w d =
           (Inr \<lparr>db_dir_path = d, db_m_path = d @ ''/m.db'', db_p_path = d @ ''/p.db'',
                 db_uuid = uuid r,
                 db_version = \<lparr>maj = schemaVersionMajor r, min_ver = schemaVersionMinor r,
                                pat = schemaVersionPatch r\<rparr>\<rparr>, w)"
  using assms by (simp add: database_ctor_def sqlite_open_present)

lemma database_ctor_error:
  assumes "database_ctor w d = (Inl e, w')"
  shows "\<exists>s. e = sqlite_exception s"
proof (cases "sqlite_open w d ''/m.db''")
  case (Pair r w1)
  show ?thesis
  proof (cases r)
    case (Inl e1)
    with Pair assms have "e = e1" by (simp add: database_ctor_def)
    with Pair Inl sqlite_open_error show ?thesis by blast
  next
    case (Inr db)
    with Pair assms have "select_information db = Inl e"
      by (auto simp: database_ctor_def split: sum.splits)
    then show ?thesis by (rule select_information_error)
  qed
qed

lemma database_ctor_absent:
  assumes "files w (d @ ''/m.db'') = None"
  shows "\<exists>s w'. database_ctor w d = (Inl (sqlite_exception s), w')"
  using assms
  by (simp add: database_ctor_def sqlite_open_def select_information_def empty_file_def)

lemma database_ctor_success:
  assumes "database_ctor w d = (Inr h, w')"
  shows "w' = w \<and> (d = [] \<or> d \<in> dirs w) \<and>
         (\<exists>db r. files w (d @ ''/m.db'') = Some db \<and> Information db = Some [r]
            \<and> db_version h = \<lparr>maj = schemaVersionMajor r, min_ver = schemaVersionMinor r,
                                pat = schemaVersionPatch r\<rparr>
            \<and> db_uuid h = uuid r)
         \<and> db_m_path h = d @ ''/m.db'' \<and> db_p_path h = d @ ''/p.db''"
  using assms
  by (auto simp: database_ctor_def sqlite_open_def select_information_def empty_file_def
      split: if_splits option.splits list.splits sum.splits)

lemma create_database_missing_dir:
  assumes "stat w d \<noteq> 0" and ne: "d \<noteq> []"
  shows "\<exists>e w'. create_database ops w d V = (Inl e, w') \<and> files w' = files w"
proof (cases "is_supported V")
  case False
  then show ?thesis by (simp add: create_database_def)
next
  case True
  from assms have nd: "d \<notin> dirs w" by (simp add: stat_nonzero_iff)
  from ensure_directory_missing [OF assms(1)] show ?thesis
  proof (elim disjE exE conjE)
    fix e assume "ensure_directory w d = (Inl e, w\<lparr>dirs := insert d (dirs w)\<rparr>)"
    with True show ?thesis by (simp add: create_database_def)
  next
    fix e assume "ensure_directory w d = (Inl e, w)"
    with True show ?thesis by (simp add: create_database_def)
  next
    assume "ensure_directory w d = (Inr (), w)"
    with True nd ne show ?thesis by (simp add: create_database_def create_store_no_dir)
  qed
qed


lemma create_database_ok:
  assumes ok: "create_database ops w d V = (Inr h, w')"
  shows "is_supported V \<and> (d = [] \<or> d \<in> dirs w) \<and>
     (\<exists>m1 p1. create_music_schema ops (opened_store w d ''/m.db'') V = (Inr (), m1)
        \<and> verify_music_schema ops m1 = Inr ()
        \<and> create_performance_schema ops (opened_store w d ''/p.db'') V = (Inr (), p1)
        \<and> verify_performance_schema ops p1 = Inr ()
        \<and> w' = w\<lparr>files := (files w)(d @ ''/m.db'' \<mapsto> m1, d @ ''/p.db'' \<mapsto> p1)\<rparr>
        \<and> database_ctor w' d = (Inr h, w'))"
proof -
  from ok have sup: "is_supported V"
    by (auto simp: create_database_def split: if_splits)
  from ok sup obtain u1 w1 where e: "ensure_directory w d = (Inr u1, w1)"
    by (auto simp: create_database_def split: prod.splits sum.splits)
  have w1: "w1 = w" by (rule ensure_directory_ok [OF e])
  from ok sup e w1 obtain u2 w2
    where m: "create_store (create_music_schema ops) (verify_music_schema ops) w d ''/m.db'' V = (Inr u2, w2)"
    by (auto simp: create_database_def split: prod.splits sum.splits)
  from ok sup e w1 m obtain u3 w3
    where p: "create_store (create_performance_schema ops) (verify_performance_schema ops) w2 d ''/p.db'' V = (Inr u3, w3)"
    by (auto simp: create_database_def split: prod.splits sum.splits)
  from ok sup e w1 m p have c: "database_ctor w3 d = (Inr h, w')"
    by (simp add: create_database_def)
  from create_store_ok [OF m] obtain m1 where d: "d = [] \<or> d \<in> dirs w"
    and m1: "create_music_schema ops (opened_store w d ''/m.db'') V = (Inr (), m1)"
      "verify_music_schema ops m1 = Inr ()"
    and w2: "w2 = w\<lparr>files := (files w)(d @ ''/m.db'' \<mapsto> m1)\<rparr>"
    by blast
  from create_store_ok [OF p] obtain p1
    where p1: "create_performance_schema ops (opened_store w2 d ''/p.db'') V = (Inr (), p1)"
      "verify_performance_schema ops p1 = Inr ()"
    and w3: "w3 = w2\<lparr>files := (files w2)(d @ ''/p.db'' \<mapsto> p1)\<rparr>"
    by blast
  have o2: "opened_store w2 d ''/p.db'' = opened_store w d ''/p.db''"
    unfolding w2 by (rule opened_store_other) simp
  have w3': "w3 = w\<lparr>files := (files w)(d @ ''/m.db'' \<mapsto> m1, d @ ''/p.db'' \<mapsto> p1)\<rparr>"
    by (simp add: w3 w2)
  have fm: "files w3 (d @ ''/m.db'') = Some m1" by (simp add: w3')
  have d3: "d = [] \<or> d \<in> dirs w3" using d by (simp add: w3')
  from c have "w' = w3"
    by (auto simp: database_ctor_def sqlite_open_present [OF d3 fm] split: sum.splits)
  with sup d m1 p1 o2 w3' c show ?thesis by auto
qed

lemma create_database_succeeds:
  assumes "is_supported V" and "d = [] \<or> d \<in> dirs w"
    and "d @ ''/m.db'' \<notin> dirs w" and "d @ ''/p.db'' \<notin> dirs w"
    and "create_music_schema ops (opened_store w d ''/m.db'') V = (Inr (), m)"
    and "verify_music_schema ops m = Inr ()"
    and "create_performance_schema ops (opened_store w d ''/p.db'') V = (Inr (), p)"
    and "verify_performance_schema ops p = Inr ()"
  shows "create_database ops w d V =
           database_ctor (w\<lparr>files := (files w)(d @ ''/m.db'' \<mapsto> m, d @ ''/p.db'' \<mapsto> p)\<rparr>) d"
proof -
  let ?w2 = "w\<lparr>files := (files w)(d @ ''/m.db'' \<mapsto> m)\<rparr>"
  have e: "ensure_directory w d = (Inr (), w)"
    using assms(2) by (rule ensure_directory_there)
  have m: "create_store (create_music_schema ops) (verify_music_schema ops) w d ''/m.db'' V
             = (Inr (), ?w2)"
    by (rule create_store_succeeds [where cr = "create_music_schema ops"
          and vf = "verify_music_schema ops", OF assms(2,3,5,6)])
  have o2: "opened_store ?w2 d ''/p.db'' = opened_store w d ''/p.db''"
    by (rule opened_store_other) simp
  have p: "create_store (create_performance_schema ops) (verify_performance_schema ops)
             ?w2 d ''/p.db'' V
             = (Inr (), ?w2\<lparr>files := (files ?w2)(d @ ''/p.db'' \<mapsto> p)\<rparr>)"
    by (rule create_store_succeeds [where cr = "create_performance_schema ops"
          and vf = "verify_performance_schema ops"]) (use assms in \<open>simp_all add: o2\<close>)
  show ?thesis
    using assms(1) e m p by (simp add: create_database_def)
qed

lemma create_database_music_verify_fails:
  assumes "is_supported V" and "d = [] \<or> d \<in> dirs w" and "d @ ''/m.db'' \<notin> dirs w"
    and "create_music_schema ops (opened_store w d ''/m.db'') V = (Inr (), m)"
    and "verify_music_schema ops m = Inl e"
  shows "create_database ops w d V = (Inl e, w\<lparr>files := (files w)(d @ ''/m.db'' \<mapsto> m)\<rparr>)"
proof -
  have e: "ensure_directory w d = (Inr (), w)"
    using assms(2) by (rule ensure_directory_there)
  have m: "create_store (create_music_schema ops) (verify_music_schema ops) w d ''/m.db'' V
             = (Inl e, w\<lparr>files := (files w)(d @ ''/m.db'' \<mapsto> m)\<rparr>)"
    by (rule create_store_verify_fails [where cr = "create_music_schema ops"
          and vf = "verify_music_schema ops", OF assms(2,3,4,5)])
  show ?thesis
    using assms(1) e m by (simp add: create_database_def)
qed

lemma create_database_performance_verify_fails:
  assumes "is_supported V" and "d = [] \<or> d \<in> dirs w"
    and "d @ ''/m.db'' \<notin> dirs w" and "d @ ''/p.db'' \<notin> dirs w"
    and "create_music_schema ops (opened_store w d ''/m.db'') V = (Inr (), m)"
    and "verify_music_schema ops m = Inr ()"
    and "create_performance_schema ops (opened_store w d ''/p.db'') V = (Inr (), p)"
    and "verify_performance_schema ops p = Inl e"
  shows "create_database ops w d V =
           (Inl e, w\<lparr>files := (files w)(d @ ''/m.db'' \<mapsto> m, d @ ''/p.db'' \<mapsto> p)\<rparr>)"
proof -
  let ?w2 = "w\<lparr>files := (files w)(d @ ''/m.db'' \<mapsto> m)\<rparr>"
  have e: "ensure_directory w d = (Inr (), w)"
    using assms(2) by (rule ensure_directory_there)
  have m: "create_store (create_music_schema ops) (verify_music_schema ops) w d ''/m.db'' V
             = (Inr (), ?w2)"
    by (rule create_store_succeeds [where cr = "create_music_schema ops"
          and vf = "verify_music_schema ops", OF assms(2,3,5,6)])
  have o2: "opened_store ?w2 d ''/p.db'' = opened_store w d ''/p.db''"
    by (rule opened_store_other) simp
  have p: "create_store (create_performance_schema ops) (verify_performance_schema ops)
             ?w2 d ''/p.db'' V
             = (Inl e, ?w2\<lparr>files := (files ?w2)(d @ ''/p.db'' \<mapsto> p)\<rparr>)"
    by (rule create_store_verify_fails [where cr = "create_performance_schema ops"
          and vf = "verify_performance_schema ops"]) (use assms in \<open>simp_all add: o2\<close>)
  show ?thesis
    using assms(1) e m p by (simp add: create_database_def)
qed

lemmas run_defs =
  create_database_def ensure_directory_def stat_def mkdir_def create_store_def sqlite_open_def
  database_ctor_def select_information_def sample_ops_def spec_create_music_schema_def
  world_of_def empty_world_def empty_file_def music_store_def opened_store_def
  music_rejecting_ops_def performance_rejecting_ops_def is_supported_iff
  version_firmware_1_0_0_def version_firmware_1_0_3_def

lemma sample_run:
  "create_database sample_ops (world_of ''lib'' Map.empty) ''lib'' version_firmware_1_0_3 =
     (Inr \<lparr>db_dir_path = ''lib'', db_m_path = ''lib/m.db'', db_p_path = ''lib/p.db'',
           db_uuid = ''0d3c1a8e'', db_version = version_firmware_1_0_3\<rparr>,
      world_of ''lib'' [''lib/m.db'' \<mapsto> music_store ''0d3c1a8e'' version_firmware_1_0_3,
                        ''lib/p.db'' \<mapsto> empty_file])"
  by (simp add: run_defs)

section \<open>Opening a database\<close>

text \<open>
  Claim C1, as the code has it. The constructor of the handle reads the music store only
  and never raises \<^verbatim>\<open>database_not_found\<close>: an error of the constructor is one of the
  SQLite layer. With the directory holding an \<^verbatim>\<open>m.db\<close> whose \<^verbatim>\<open>Information\<close> table
  has exactly one row, the constructor succeeds and the handle carries the uuid and the
  schema version of that row, whatever there is at \<^verbatim>\<open>p.db\<close>; without \<^verbatim>\<open>m.db\<close> it fails
  with an error of the SQLite layer. On a handle that was opened, \<^verbatim>\<open>exists()\<close> is true
  exactly when \<^verbatim>\<open>p.db\<close> is there as well.
\<close>

theorem database_ctor_reads_music_store:
  "fst (database_ctor w d) \<noteq> Inl (database_not_found s)
   \<and> (d \<in> dirs w \<longrightarrow> files w (d @ ''/m.db'') = Some db \<longrightarrow> Information db = Some [r] \<longrightarrow>
        database_ctor w d =
          (Inr \<lparr>db_dir_path = d, db_m_path = d @ ''/m.db'', db_p_path = d @ ''/p.db'',
                db_uuid = uuid r,
                db_version = \<lparr>maj = schemaVersionMajor r, min_ver = schemaVersionMinor r,
                               pat = schemaVersionPatch r\<rparr>\<rparr>, w))
   \<and> (files w (d @ ''/m.db'') = None \<longrightarrow>
        (\<exists>t w'. database_ctor w d = (Inl (sqlite_exception t), w')))
   \<and> (database_ctor w d = (Inr h, w') \<longrightarrow>
        w' = w \<and> stat w (d @ ''/m.db'') = 0
        \<and> (database_exists w h \<longleftrightarrow> stat w (d @ ''/p.db'') = 0))"
proof (intro conjI impI)
  show "fst (database_ctor w d) \<noteq> Inl (database_not_found s)"
  proof
    assume a: "fst (database_ctor w d) = Inl (database_not_found s)"
    then obtain w' where "database_ctor w d = (Inl (database_not_found s), w')"
      by (cases "database_ctor w d") simp
    from database_ctor_error [OF this] show False by simp
  qed
next
  assume a: "d \<in> dirs w" "files w (d @ ''/m.db'') = Some db" and i: "Information db = Some [r]"
  from i have sel: "select_information db = Inr r" by (simp add: select_information_def)
  from a(1) have da: "d = [] \<or> d \<in> dirs w" by simp
  from da a(2) sel show "database_ctor w d =
          (Inr \<lparr>db_dir_path = d, db_m_path = d @ ''/m.db'', db_p_path = d @ ''/p.db'',
                db_uuid = uuid r,
                db_version = \<lparr>maj = schemaVersionMajor r, min_ver = schemaVersionMinor r,
                               pat = schemaVersionPatch r\<rparr>\<rparr>, w)"
    by (rule database_ctor_present)
next
  assume "files w (d @ ''/m.db'') = None"
  then show "\<exists>t w'. database_ctor w d = (Inl (sqlite_exception t), w')"
    by (rule database_ctor_absent)
next
  assume ok: "database_ctor w d = (Inr h, w')"
  note s = database_ctor_success [OF ok]
  from s show "w' = w" by blast
  from s show m: "stat w (d @ ''/m.db'') = 0" by (auto simp: stat_def)
  from s m show "database_exists w h \<longleftrightarrow> stat w (d @ ''/p.db'') = 0"
    by (simp add: database_exists_def)
qed

theorem database_ctor_reads_music_store_witness:
  "''lib'' \<in> dirs (world_of ''lib'' [''lib/m.db'' \<mapsto> music_store ''0d3c1a8e'' version_firmware_1_0_0])
   \<and> database_ctor
        (world_of ''lib'' [''lib/m.db'' \<mapsto> music_store ''0d3c1a8e'' version_firmware_1_0_0])
        ''lib'' =
       (Inr \<lparr>db_dir_path = ''lib'', db_m_path = ''lib/m.db'', db_p_path = ''lib/p.db'',
             db_uuid = ''0d3c1a8e'', db_version = version_firmware_1_0_0\<rparr>,
        world_of ''lib'' [''lib/m.db'' \<mapsto> music_store ''0d3c1a8e'' version_firmware_1_0_0])
   \<and> \<not> database_exists
        (world_of ''lib'' [''lib/m.db'' \<mapsto> music_store ''0d3c1a8e'' version_firmware_1_0_0])
        \<lparr>db_dir_path = ''lib'', db_m_path = ''lib/m.db'', db_p_path = ''lib/p.db'',
             db_uuid = ''0d3c1a8e'', db_version = version_firmware_1_0_0\<rparr>"
proof -
  let ?V = version_firmware_1_0_0
  let ?r = "\<lparr>uuid = ''0d3c1a8e'', schemaVersionMajor = maj ?V,
             schemaVersionMinor = min_ver ?V, schemaVersionPatch = pat ?V\<rparr>"
  let ?w = "world_of ''lib'' [''lib/m.db'' \<mapsto> music_store ''0d3c1a8e'' ?V]"
  let ?h = "\<lparr>db_dir_path = ''lib'', db_m_path = ''lib/m.db'', db_p_path = ''lib/p.db'',
             db_uuid = ''0d3c1a8e'', db_version = ?V\<rparr>"
  have d: "''lib'' \<in> dirs ?w" by (simp add: world_of_def)
  have f: "files ?w (''lib'' @ ''/m.db'') = Some (music_store ''0d3c1a8e'' ?V)"
    by (simp add: world_of_def)
  have i: "Information (music_store ''0d3c1a8e'' ?V) = Some [?r]"
    by (simp add: music_store_def)
  note t = database_ctor_reads_music_store
    [of ?w "''lib''" _ "music_store ''0d3c1a8e'' ?V" ?r ?h ?w]
  from t d f i have run: "database_ctor ?w ''lib'' = (Inr ?h, ?w)"
    by (simp add: version_firmware_1_0_0_def)
  with t have "database_exists ?w ?h \<longleftrightarrow> stat ?w (''lib'' @ ''/p.db'') = 0"
    by blast
  then have "\<not> database_exists ?w ?h"
    by (simp add: stat_def world_of_def)
  with d run show ?thesis by simp
qed

text \<open>
  Claim C1 as stated fails: in a directory that holds a music store of version 1.7.1 and
  no performance store the constructor returns a handle, and in a directory without the
  music store it fails with the error of the SQLite layer for the missing table, having
  created an empty \<^verbatim>\<open>m.db\<close>.
\<close>

theorem open_without_performance_store_counterexample:
  "stat (world_of ''lib'' [''lib/m.db'' \<mapsto> music_store ''0d3c1a8e'' version_firmware_1_0_3])
        ''lib/p.db'' \<noteq> 0
   \<and> database_ctor
        (world_of ''lib'' [''lib/m.db'' \<mapsto> music_store ''0d3c1a8e'' version_firmware_1_0_3])
        ''lib'' =
       (Inr \<lparr>db_dir_path = ''lib'', db_m_path = ''lib/m.db'', db_p_path = ''lib/p.db'',
             db_uuid = ''0d3c1a8e'', db_version = version_firmware_1_0_3\<rparr>,
        world_of ''lib'' [''lib/m.db'' \<mapsto> music_store ''0d3c1a8e'' version_firmware_1_0_3])
   \<and> stat (world_of ''lib'' Map.empty) ''lib/m.db'' \<noteq> 0
   \<and> database_ctor (world_of ''lib'' Map.empty) ''lib'' =
       (Inl (sqlite_exception ''no such table: Information''),
        world_of ''lib'' [''lib/m.db'' \<mapsto> empty_file])"
  by (simp add: stat_def world_of_def database_ctor_def sqlite_open_def select_information_def
      music_store_def empty_file_def version_firmware_1_0_3_def)

section \<open>Creating a database\<close>

text \<open>
  Claim C2. For a version that is neither 1.6.0 nor 1.7.1, \<^verbatim>\<open>create_database\<close> fails
  with \<^verbatim>\<open>unsupported_database_version\<close> carrying that version, and the world is the one
  it started from: no directory and no file has been created.
\<close>

theorem create_database_unsupported_version:
  assumes "V \<noteq> version_firmware_1_0_0" and "V \<noteq> version_firmware_1_0_3"
  shows "create_database ops w dir_path V =
           (Inl (unsupported_database_version ''Unsupported database version'' V), w)"
  using assms by (simp add: create_database_def is_supported_iff)

theorem create_database_unsupported_version_witness:
  "create_database sample_ops empty_world ''Engine Library'' \<lparr>maj = 1, min_ver = 5, pat = 0\<rparr> =
     (Inl (unsupported_database_version ''Unsupported database version''
             \<lparr>maj = 1, min_ver = 5, pat = 0\<rparr>), empty_world)
   \<and> dirs empty_world = {} \<and> files empty_world = Map.empty"
proof -
  have a: "\<lparr>maj = 1, min_ver = 5, pat = 0\<rparr> \<noteq> version_firmware_1_0_0"
    by (simp add: version_firmware_1_0_0_def)
  have b: "\<lparr>maj = 1, min_ver = 5, pat = 0\<rparr> \<noteq> version_firmware_1_0_3"
    by (simp add: version_firmware_1_0_3_def)
  show ?thesis
    using create_database_unsupported_version [OF a b, of sample_ops empty_world "''Engine Library''"]
    by (simp add: empty_world_def)
qed

text \<open>
  Claim C8. When \<^verbatim>\<open>create_database\<close> returns a handle, the version is supported, the
  music schema was created in the music store and verified, then the performance schema
  was created in the performance store and verified, and both stores are in the world
  that is returned. When the verification of the music store fails, the call fails with
  that error and the performance store is not touched; when the verification of the
  performance store fails, the call fails with that error.
\<close>

theorem create_database_verifies_both_stores:
  "(create_database ops w d V = (Inr h, w') \<longrightarrow>
      is_supported V \<and>
      (\<exists>m1 p1. create_music_schema ops (opened_store w d ''/m.db'') V = (Inr (), m1)
         \<and> verify_music_schema ops m1 = Inr ()
         \<and> create_performance_schema ops (opened_store w d ''/p.db'') V = (Inr (), p1)
         \<and> verify_performance_schema ops p1 = Inr ()
         \<and> files w' (d @ ''/m.db'') = Some m1 \<and> files w' (d @ ''/p.db'') = Some p1))
   \<and> (is_supported V \<longrightarrow> d \<in> dirs w \<longrightarrow> d @ ''/m.db'' \<notin> dirs w \<longrightarrow>
        create_music_schema ops (opened_store w d ''/m.db'') V = (Inr (), m) \<longrightarrow>
        verify_music_schema ops m = Inl e \<longrightarrow>
          create_database ops w d V = (Inl e, w\<lparr>files := (files w)(d @ ''/m.db'' \<mapsto> m)\<rparr>))
   \<and> (is_supported V \<longrightarrow> d \<in> dirs w \<longrightarrow> d @ ''/m.db'' \<notin> dirs w \<longrightarrow> d @ ''/p.db'' \<notin> dirs w \<longrightarrow>
        create_music_schema ops (opened_store w d ''/m.db'') V = (Inr (), m) \<longrightarrow>
        verify_music_schema ops m = Inr () \<longrightarrow>
        create_performance_schema ops (opened_store w d ''/p.db'') V = (Inr (), p) \<longrightarrow>
        verify_performance_schema ops p = Inl e \<longrightarrow>
          create_database ops w d V =
            (Inl e, w\<lparr>files := (files w)(d @ ''/m.db'' \<mapsto> m, d @ ''/p.db'' \<mapsto> p)\<rparr>))"
proof (intro conjI impI)
  assume ok: "create_database ops w d V = (Inr h, w')"
  from create_database_ok [OF ok] show "is_supported V" by blast
  from create_database_ok [OF ok] obtain m1 p1
    where a: "create_music_schema ops (opened_store w d ''/m.db'') V = (Inr (), m1)"
      "verify_music_schema ops m1 = Inr ()"
      "create_performance_schema ops (opened_store w d ''/p.db'') V = (Inr (), p1)"
      "verify_performance_schema ops p1 = Inr ()"
    and w': "w' = w\<lparr>files := (files w)(d @ ''/m.db'' \<mapsto> m1, d @ ''/p.db'' \<mapsto> p1)\<rparr>"
    by blast
  have "files w' (d @ ''/m.db'') = Some m1" "files w' (d @ ''/p.db'') = Some p1"
    by (simp_all add: w')
  with a show "\<exists>m1 p1. create_music_schema ops (opened_store w d ''/m.db'') V = (Inr (), m1)
         \<and> verify_music_schema ops m1 = Inr ()
         \<and> create_performance_schema ops (opened_store w d ''/p.db'') V = (Inr (), p1)
         \<and> verify_performance_schema ops p1 = Inr ()
         \<and> files w' (d @ ''/m.db'') = Some m1 \<and> files w' (d @ ''/p.db'') = Some p1"
    by blast
next
  assume "is_supported V" "d \<in> dirs w" "d @ ''/m.db'' \<notin> dirs w"
    "create_music_schema ops (opened_store w d ''/m.db'') V = (Inr (), m)"
    "verify_music_schema ops m = Inl e"
  then show "create_database ops w d V = (Inl e, w\<lparr>files := (files w)(d @ ''/m.db'' \<mapsto> m)\<rparr>)"
    by (blast intro: create_database_music_verify_fails)
next
  assume "is_supported V" "d \<in> dirs w" "d @ ''/m.db'' \<notin> dirs w" "d @ ''/p.db'' \<notin> dirs w"
    "create_music_schema ops (opened_store w d ''/m.db'') V = (Inr (), m)"
    "verify_music_schema ops m = Inr ()"
    "create_performance_schema ops (opened_store w d ''/p.db'') V = (Inr (), p)"
    "verify_performance_schema ops p = Inl e"
  then show "create_database ops w d V =
            (Inl e, w\<lparr>files := (files w)(d @ ''/m.db'' \<mapsto> m, d @ ''/p.db'' \<mapsto> p)\<rparr>)"
    by (blast intro: create_database_performance_verify_fails)
qed

theorem create_database_verifies_both_stores_witness:
  "create_database sample_ops (world_of ''lib'' Map.empty) ''lib'' version_firmware_1_0_3 =
     (Inr \<lparr>db_dir_path = ''lib'', db_m_path = ''lib/m.db'', db_p_path = ''lib/p.db'',
           db_uuid = ''0d3c1a8e'', db_version = version_firmware_1_0_3\<rparr>,
      world_of ''lib'' [''lib/m.db'' \<mapsto> music_store ''0d3c1a8e'' version_firmware_1_0_3,
                        ''lib/p.db'' \<mapsto> empty_file])
   \<and> verify_music_schema sample_ops (music_store ''0d3c1a8e'' version_firmware_1_0_3) = Inr ()
   \<and> verify_performance_schema sample_ops empty_file = Inr ()
   \<and> create_database music_rejecting_ops (world_of ''lib'' Map.empty) ''lib''
        version_firmware_1_0_3 =
       (Inl (database_inconsistency ''Track''),
        world_of ''lib'' [''lib/m.db'' \<mapsto> music_store ''0d3c1a8e'' version_firmware_1_0_3])
   \<and> create_database performance_rejecting_ops (world_of ''lib'' Map.empty) ''lib''
        version_firmware_1_0_3 =
       (Inl (database_inconsistency ''PerformanceData''),
        world_of ''lib'' [''lib/m.db'' \<mapsto> music_store ''0d3c1a8e'' version_firmware_1_0_3,
                          ''lib/p.db'' \<mapsto> empty_file])"
proof -
  let ?w = "world_of ''lib'' Map.empty"
  let ?V = version_firmware_1_0_3
  let ?m = "music_store ''0d3c1a8e'' ?V"
  let ?h = "\<lparr>db_dir_path = ''lib'', db_m_path = ''lib/m.db'', db_p_path = ''lib/p.db'',
           db_uuid = ''0d3c1a8e'', db_version = ?V\<rparr>"
  let ?w' = "world_of ''lib'' [''lib/m.db'' \<mapsto> ?m, ''lib/p.db'' \<mapsto> empty_file]"
  have run: "create_database sample_ops ?w ''lib'' ?V = (Inr ?h, ?w')"
    by (rule sample_run)
  have sup: "is_supported ?V" by (simp add: is_supported_iff)
  have dir: "''lib'' \<in> dirs ?w" "''lib'' @ ''/m.db'' \<notin> dirs ?w" "''lib'' @ ''/p.db'' \<notin> dirs ?w"
    by (simp_all add: world_of_def)
  have a: "\<exists>m1 p1. create_music_schema sample_ops (opened_store ?w ''lib'' ''/m.db'') ?V = (Inr (), m1)
         \<and> verify_music_schema sample_ops m1 = Inr ()
         \<and> create_performance_schema sample_ops (opened_store ?w ''lib'' ''/p.db'') ?V = (Inr (), p1)
         \<and> verify_performance_schema sample_ops p1 = Inr ()
         \<and> files ?w' (''lib'' @ ''/m.db'') = Some m1 \<and> files ?w' (''lib'' @ ''/p.db'') = Some p1"
    using create_database_verifies_both_stores
      [of sample_ops ?w "''lib''" ?V ?h ?w'] run by blast
  then have v: "verify_music_schema sample_ops ?m = Inr ()"
    "verify_performance_schema sample_ops empty_file = Inr ()"
    by (auto simp: world_of_def)
  have cm: "create_music_schema music_rejecting_ops (opened_store ?w ''lib'' ''/m.db'') ?V
              = (Inr (), ?m)"
    by (simp add: run_defs)
  have vm: "verify_music_schema music_rejecting_ops ?m = Inl (database_inconsistency ''Track'')"
    by (simp add: run_defs)
  have b: "create_database music_rejecting_ops ?w ''lib'' ?V =
             (Inl (database_inconsistency ''Track''),
              ?w\<lparr>files := (files ?w)(''lib'' @ ''/m.db'' \<mapsto> ?m)\<rparr>)"
    using create_database_verifies_both_stores
      [of music_rejecting_ops ?w "''lib''" ?V _ _ ?m "database_inconsistency ''Track''"]
      sup dir cm vm by blast
  have cm': "create_music_schema performance_rejecting_ops (opened_store ?w ''lib'' ''/m.db'') ?V
              = (Inr (), ?m)"
    by (simp add: run_defs)
  have vm': "verify_music_schema performance_rejecting_ops ?m = Inr ()"
    by (simp add: run_defs)
  have cp: "create_performance_schema performance_rejecting_ops
              (opened_store ?w ''lib'' ''/p.db'') ?V = (Inr (), empty_file)"
    by (simp add: run_defs)
  have vp: "verify_performance_schema performance_rejecting_ops empty_file
              = Inl (database_inconsistency ''PerformanceData'')"
    by (simp add: run_defs)
  have c: "create_database performance_rejecting_ops ?w ''lib'' ?V =
             (Inl (database_inconsistency ''PerformanceData''),
              ?w\<lparr>files := (files ?w)(''lib'' @ ''/m.db'' \<mapsto> ?m, ''lib'' @ ''/p.db'' \<mapsto> empty_file)\<rparr>)"
    using create_database_verifies_both_stores
      [of performance_rejecting_ops ?w "''lib''" ?V _ _ ?m "database_inconsistency ''PerformanceData''" empty_file]
      sup dir cm' vm' cp vp by blast
  from run v b c show ?thesis
    by (simp add: world_of_def)
qed

text \<open>
  Claim C9. With the music schema of the spec, a handle that \<^verbatim>\<open>create_database\<close>
  returns for the version \<open>V\<close> has the version \<open>V\<close>, the music store holds the one
  \<^verbatim>\<open>Information\<close> row with the three components of \<open>V\<close>, and opening the directory
  again gives the same handle. The creation does return a handle when the version is
  supported, the directory exists and the schema functions succeed.
\<close>

theorem create_then_read_version:
  "(create_music_schema ops = spec_create_music_schema u \<longrightarrow>
    create_database ops w d V = (Inr h, w') \<longrightarrow>
      is_supported V \<and> db_version h = V \<and> db_uuid h = u
      \<and> (\<exists>m1. files w' (d @ ''/m.db'') = Some m1
               \<and> Information m1 = Some [\<lparr>uuid = u, schemaVersionMajor = maj V,
                      schemaVersionMinor = min_ver V, schemaVersionPatch = pat V\<rparr>])
      \<and> database_ctor w' d = (Inr h, w'))
   \<and> (create_music_schema ops = spec_create_music_schema u \<longrightarrow>
      is_supported V \<longrightarrow> d \<in> dirs w \<longrightarrow> d @ ''/m.db'' \<notin> dirs w \<longrightarrow> d @ ''/p.db'' \<notin> dirs w \<longrightarrow>
      verify_music_schema ops (snd (spec_create_music_schema u (opened_store w d ''/m.db'') V))
        = Inr () \<longrightarrow>
      create_performance_schema ops (opened_store w d ''/p.db'') V = (Inr (), p) \<longrightarrow>
      verify_performance_schema ops p = Inr () \<longrightarrow>
        (\<exists>h w'. create_database ops w d V = (Inr h, w') \<and> db_version h = V))"
proof (intro conjI impI)
  assume spec: "create_music_schema ops = spec_create_music_schema u"
    and ok: "create_database ops w d V = (Inr h, w')"
  from create_database_ok [OF ok] obtain m1 p1 where sup: "is_supported V"
    and m1: "create_music_schema ops (opened_store w d ''/m.db'') V = (Inr (), m1)"
    and w': "w' = w\<lparr>files := (files w)(d @ ''/m.db'' \<mapsto> m1, d @ ''/p.db'' \<mapsto> p1)\<rparr>"
    and c: "database_ctor w' d = (Inr h, w')"
    by blast
  let ?r = "\<lparr>uuid = u, schemaVersionMajor = maj V,
             schemaVersionMinor = min_ver V, schemaVersionPatch = pat V\<rparr>"
  from m1 spec have i: "Information m1 = Some [?r]"
    by (auto simp: spec_create_music_schema_def)
  have f: "files w' (d @ ''/m.db'') = Some m1" by (simp add: w')
  then have o: "opened_store w' d ''/m.db'' = m1" by (simp add: opened_store_def)
  from database_ctor_ok [OF c] o i have "db_version h = V" "db_uuid h = u"
    by (auto simp: select_information_def)
  with sup i f c
  show "is_supported V" "db_version h = V" "db_uuid h = u"
    "\<exists>m1. files w' (d @ ''/m.db'') = Some m1 \<and> Information m1 = Some [?r]"
    "database_ctor w' d = (Inr h, w')"
    by auto
next
  assume spec: "create_music_schema ops = spec_create_music_schema u"
    and sup: "is_supported V" and d: "d \<in> dirs w"
    and nd: "d @ ''/m.db'' \<notin> dirs w" "d @ ''/p.db'' \<notin> dirs w"
    and vm: "verify_music_schema ops
               (snd (spec_create_music_schema u (opened_store w d ''/m.db'') V)) = Inr ()"
    and cp: "create_performance_schema ops (opened_store w d ''/p.db'') V = (Inr (), p)"
    and vp: "verify_performance_schema ops p = Inr ()"
  let ?r = "\<lparr>uuid = u, schemaVersionMajor = maj V,
             schemaVersionMinor = min_ver V, schemaVersionPatch = pat V\<rparr>"
  let ?m = "snd (spec_create_music_schema u (opened_store w d ''/m.db'') V)"
  let ?w' = "w\<lparr>files := (files w)(d @ ''/m.db'' \<mapsto> ?m, d @ ''/p.db'' \<mapsto> p)\<rparr>"
  have cm: "create_music_schema ops (opened_store w d ''/m.db'') V = (Inr (), ?m)"
    by (simp add: spec spec_create_music_schema_def)
  have run: "create_database ops w d V = database_ctor ?w' d"
    by (rule create_database_succeeds [OF sup disjI2 [OF d] nd cm vm cp vp])
  have sel: "select_information ?m = Inr ?r"
    by (simp add: spec_create_music_schema_def select_information_def)
  have "database_ctor ?w' d =
           (Inr \<lparr>db_dir_path = d, db_m_path = d @ ''/m.db'', db_p_path = d @ ''/p.db'',
                 db_uuid = uuid ?r,
                 db_version = \<lparr>maj = schemaVersionMajor ?r, min_ver = schemaVersionMinor ?r,
                                pat = schemaVersionPatch ?r\<rparr>\<rparr>, ?w')"
    by (rule database_ctor_present [OF _ _ sel]) (use d in simp_all)
  with run show "\<exists>h w'. create_database ops w d V = (Inr h, w') \<and> db_version h = V"
    by simp
qed

theorem create_then_read_version_witness:
  "create_music_schema sample_ops = spec_create_music_schema ''0d3c1a8e''
   \<and> create_database sample_ops (world_of ''lib'' Map.empty) ''lib'' version_firmware_1_0_0 =
     (Inr \<lparr>db_dir_path = ''lib'', db_m_path = ''lib/m.db'', db_p_path = ''lib/p.db'',
           db_uuid = ''0d3c1a8e'', db_version = version_firmware_1_0_0\<rparr>,
      world_of ''lib'' [''lib/m.db'' \<mapsto> music_store ''0d3c1a8e'' version_firmware_1_0_0,
                        ''lib/p.db'' \<mapsto> empty_file])
   \<and> database_ctor
        (world_of ''lib'' [''lib/m.db'' \<mapsto> music_store ''0d3c1a8e'' version_firmware_1_0_0,
                          ''lib/p.db'' \<mapsto> empty_file]) ''lib'' =
     (Inr \<lparr>db_dir_path = ''lib'', db_m_path = ''lib/m.db'', db_p_path = ''lib/p.db'',
           db_uuid = ''0d3c1a8e'', db_version = version_firmware_1_0_0\<rparr>,
      world_of ''lib'' [''lib/m.db'' \<mapsto> music_store ''0d3c1a8e'' version_firmware_1_0_0,
                        ''lib/p.db'' \<mapsto> empty_file])
   \<and> triple version_firmware_1_0_0 = (1, 6, 0)"
proof -
  let ?w = "world_of ''lib'' Map.empty"
  let ?V = version_firmware_1_0_0
  let ?h = "\<lparr>db_dir_path = ''lib'', db_m_path = ''lib/m.db'', db_p_path = ''lib/p.db'',
           db_uuid = ''0d3c1a8e'', db_version = ?V\<rparr>"
  let ?w' = "world_of ''lib'' [''lib/m.db'' \<mapsto> music_store ''0d3c1a8e'' ?V,
                               ''lib/p.db'' \<mapsto> empty_file]"
  have spec: "create_music_schema sample_ops = spec_create_music_schema ''0d3c1a8e''"
    by (simp add: sample_ops_def)
  have run: "create_database sample_ops ?w ''lib'' ?V = (Inr ?h, ?w')"
    by (simp add: run_defs)
  have "database_ctor ?w' ''lib'' = (Inr ?h, ?w')"
    using create_then_read_version [of sample_ops "''0d3c1a8e''" ?w "''lib''" ?V ?h ?w']
      spec run by blast
  with spec run show ?thesis
    by (simp add: triple_def version_firmware_1_0_0_def)
qed




section \<open>The order of schema versions\<close>

text \<open>
  Claim C3. \<^verbatim>\<open><\<close>, \<^verbatim>\<open><=\<close>, \<^verbatim>\<open>>\<close> and \<^verbatim>\<open>>=\<close> are the lexicographic order of the
  triples (major, minor, patch) and its converse, \<^verbatim>\<open>==\<close> is equality of the three
  components and \<^verbatim>\<open>!=\<close> its negation, \<^verbatim>\<open><=\<close> is \<^verbatim>\<open><\<close> or \<^verbatim>\<open>==\<close>, and exactly one of
  \<^verbatim>\<open><\<close>, \<^verbatim>\<open>==\<close>, \<^verbatim>\<open>>\<close> holds of any two versions.
\<close>

theorem schema_version_total_order:
  "(version_lt a b \<longleftrightarrow> triple a < triple b)
   \<and> (version_le a b \<longleftrightarrow> triple a \<le> triple b)
   \<and> (version_gt a b \<longleftrightarrow> triple b < triple a)
   \<and> (version_ge a b \<longleftrightarrow> triple b \<le> triple a)
   \<and> (version_eq a b \<longleftrightarrow> triple a = triple b)
   \<and> (version_ne a b \<longleftrightarrow> triple a \<noteq> triple b)
   \<and> (version_eq a b \<longleftrightarrow> maj a = maj b \<and> min_ver a = min_ver b \<and> pat a = pat b)
   \<and> (version_eq a b \<longleftrightarrow> a = b)
   \<and> (version_le a b \<longleftrightarrow> version_lt a b \<or> version_eq a b)
   \<and> (version_ge a b \<longleftrightarrow> version_gt a b \<or> version_eq a b)
   \<and> (version_lt a b \<and> \<not> version_eq a b \<and> \<not> version_gt a b
        \<or> \<not> version_lt a b \<and> version_eq a b \<and> \<not> version_gt a b
        \<or> \<not> version_lt a b \<and> \<not> version_eq a b \<and> version_gt a b)"
proof -
  have eq: "version_eq a b \<longleftrightarrow> maj a = maj b \<and> min_ver a = min_ver b \<and> pat a = pat b"
    by (simp add: version_eq_def)
  have rec: "version_eq a b \<longleftrightarrow> a = b"
    by (cases a, cases b) (auto simp: version_eq_def)
  have le: "version_le a b \<longleftrightarrow> version_lt a b \<or> version_eq a b"
    by (auto simp: version_le_triple version_lt_triple version_eq_triple)
  have ge: "version_ge a b \<longleftrightarrow> version_gt a b \<or> version_eq a b"
    by (auto simp: version_ge_triple version_gt_triple version_eq_triple)
  have tri: "version_lt a b \<and> \<not> version_eq a b \<and> \<not> version_gt a b
        \<or> \<not> version_lt a b \<and> version_eq a b \<and> \<not> version_gt a b
        \<or> \<not> version_lt a b \<and> \<not> version_eq a b \<and> version_gt a b"
    by (auto simp: version_gt_triple version_lt_triple version_eq_triple)
  show ?thesis
    using eq rec le ge tri version_lt_triple [of a b] version_le_triple [of a b]
      version_gt_triple [of a b] version_ge_triple [of a b] version_eq_triple [of a b]
      version_ne_triple [of a b]
    by blast
qed

theorem schema_version_total_order_witness:
  "version_lt version_firmware_1_0_0 version_firmware_1_0_3
   \<and> \<not> version_eq version_firmware_1_0_0 version_firmware_1_0_3
   \<and> \<not> version_gt version_firmware_1_0_0 version_firmware_1_0_3
   \<and> triple version_firmware_1_0_0 = (1, 6, 0)
   \<and> triple version_firmware_1_0_3 = (1, 7, 1)"
  using schema_version_total_order [of version_firmware_1_0_0 version_firmware_1_0_3]
  by (simp add: triple_def version_firmware_1_0_0_def version_firmware_1_0_3_def)

section \<open>Performance data: the tempo and the slots\<close>

lemma cint_diff_eq_0_iff: "(a :: cint) - b = 0 \<longleftrightarrow> a = b"
  by simp

lemma sint_diff_eq_0_iff: "sint (a :: cint) - sint b = 0 \<longleftrightarrow> a = b"
  by (auto intro: signed_word_eqI)

lemma sint_cint_diff:
  assumes "- (2 ^ 31) \<le> sint (a :: cint) - sint b" and "sint a - sint b < 2 ^ 31"
  shows "sint (a - b) = sint a - sint b"
  using assms by (simp add: sint_word_ariths signed_take_bit_int_eq_self)

lemma fill_slots_eq: "fill_slots n d xs = take n xs @ replicate (n - length xs) d"
  by (induction n d xs rule: fill_slots.induct) simp_all

lemma length_fill_slots: "length (fill_slots n d xs) = n"
  by (induction n d xs rule: fill_slots.induct) simp_all

lemma fill_slots_nth:
  "i < n \<Longrightarrow> fill_slots n d xs ! i = (if i < length xs then xs ! i else d)"
  by (simp add: fill_slots_eq nth_append)

text \<open>
  Claim C4, as the code has it. \<^verbatim>\<open>bpm()\<close> is 0 when the two beat indices of the
  adjusted grid have the difference 0, whatever the sample rate and the offsets are.
  Otherwise it is \<open>sample_rate * 60 * span / (last_offset - first_offset)\<close>, computed
  with the operations on doubles from left to right, where \<open>span\<close> is the difference of
  the two indices as the subtraction of \<^verbatim>\<open>int\<close>s gives it. When the difference of the
  indices is one that an \<^verbatim>\<open>int\<close> holds, that is the formula of the spec over the
  adjusted beat grid; with exact arithmetic on the reals and distinct offsets the
  formula is \<open>rate * 60 * (last_index - first_index) / (last_offset - first_offset)\<close>.
\<close>

theorem bpm_formula:
  "(sint (last_beat_index (adjusted_beat_grid p))
      - sint (first_beat_index (adjusted_beat_grid p)) = 0 \<longrightarrow>
      bpm ops p = d_of_int ops 0)
   \<and> (sint (last_beat_index (adjusted_beat_grid p))
         - sint (first_beat_index (adjusted_beat_grid p)) \<noteq> 0 \<longrightarrow>
       bpm ops p =
         d_div ops
           (d_mul ops (d_mul ops (sample_rate p) (d_of_int ops 60))
              (d_of_int ops
                 (sint (last_beat_index (adjusted_beat_grid p)
                        - first_beat_index (adjusted_beat_grid p)))))
           (d_sub ops (last_beat_sample_offset (adjusted_beat_grid p))
              (first_beat_sample_offset (adjusted_beat_grid p))))
   \<and> (sint (last_beat_index (adjusted_beat_grid p))
         - sint (first_beat_index (adjusted_beat_grid p)) \<noteq> 0 \<longrightarrow>
       int_fits (sint (last_beat_index (adjusted_beat_grid p))
                 - sint (first_beat_index (adjusted_beat_grid p))) \<longrightarrow>
       bpm ops p =
         spec_bpm_formula ops (sample_rate p)
           (sint (first_beat_index (adjusted_beat_grid p)))
           (first_beat_sample_offset (adjusted_beat_grid p))
           (sint (last_beat_index (adjusted_beat_grid p)))
           (last_beat_sample_offset (adjusted_beat_grid p)))
   \<and> (lo \<noteq> fo \<longrightarrow>
        spec_bpm_formula real_ops rate fi fo li lo = rate * 60 * of_int (li - fi) / (lo - fo))"
proof (intro conjI impI)
  assume "sint (last_beat_index (adjusted_beat_grid p))
      - sint (first_beat_index (adjusted_beat_grid p)) = 0"
  then have "last_beat_index (adjusted_beat_grid p) = first_beat_index (adjusted_beat_grid p)"
    by (simp only: sint_diff_eq_0_iff)
  then show "bpm ops p = d_of_int ops 0"
    by (simp add: bpm_def)
next
  let ?l = "last_beat_index (adjusted_beat_grid p)"
  let ?f = "first_beat_index (adjusted_beat_grid p)"
  assume nz: "sint ?l - sint ?f \<noteq> 0"
  then have "?l \<noteq> ?f"
    using sint_diff_eq_0_iff [of ?l ?f] by blast
  then show "bpm ops p =
         d_div ops
           (d_mul ops (d_mul ops (sample_rate p) (d_of_int ops 60))
              (d_of_int ops (sint (?l - ?f))))
           (d_sub ops (last_beat_sample_offset (adjusted_beat_grid p))
              (first_beat_sample_offset (adjusted_beat_grid p)))"
    by (simp add: bpm_def)
next
  let ?l = "last_beat_index (adjusted_beat_grid p)"
  let ?f = "first_beat_index (adjusted_beat_grid p)"
  assume nz: "sint ?l - sint ?f \<noteq> 0" and fit: "int_fits (sint ?l - sint ?f)"
  from nz have "?l \<noteq> ?f"
    using sint_diff_eq_0_iff [of ?l ?f] by blast
  then have ne: "?l - ?f \<noteq> 0"
    by simp
  from fit have "sint (?l - ?f) = sint ?l - sint ?f"
    by (intro sint_cint_diff) (simp_all add: int_fits_def)
  with ne show "bpm ops p =
         spec_bpm_formula ops (sample_rate p) (sint ?f)
           (first_beat_sample_offset (adjusted_beat_grid p)) (sint ?l)
           (last_beat_sample_offset (adjusted_beat_grid p))"
    by (simp add: bpm_def spec_bpm_formula_def)
next
  show "spec_bpm_formula real_ops rate fi fo li lo = rate * 60 * of_int (li - fi) / (lo - fo)"
    by (simp add: spec_bpm_formula_def real_ops_def)
qed

theorem bpm_formula_witness:
  "bpm real_ops (sample_data sample_grid) = 2159136000000 / 17554051219
   \<and> bpm real_ops (sample_data (sample_grid\<lparr>last_beat_index := -4\<rparr>)) = 0"
proof -
  let ?p = "sample_data sample_grid"
  let ?q = "sample_data (sample_grid\<lparr>last_beat_index := -4\<rparr>)"
  have i: "sint (last_beat_index (adjusted_beat_grid ?p)) = 812"
    "sint (first_beat_index (adjusted_beat_grid ?p)) = -4"
    by (simp_all add: sample_data_def sample_grid_def)
  have j: "sint (last_beat_index (adjusted_beat_grid ?q))
             - sint (first_beat_index (adjusted_beat_grid ?q)) = 0"
    by (simp add: sample_data_def sample_grid_def)
  note t = bpm_formula [where p = ?p and ops = real_ops and rate = 44100 and fi = "-4"
      and fo = "-83316.78" and li = 812 and lo = "17470734.439"]
  have "bpm real_ops ?p =
         spec_bpm_formula real_ops (sample_rate ?p) (-4)
           (first_beat_sample_offset (adjusted_beat_grid ?p)) 812
           (last_beat_sample_offset (adjusted_beat_grid ?p))"
    using t i by (simp add: int_fits_def)
  also have "\<dots> = 44100 * 60 * of_int (812 - (-4)) / (17470734.439 - (-83316.78))"
    using t by (simp add: sample_data_def sample_grid_def)
  also have "\<dots> = 2159136000000 / 17554051219"
    by simp
  finally have a: "bpm real_ops ?p = 2159136000000 / 17554051219" .
  have "bpm real_ops ?q = d_of_int real_ops 0"
    using bpm_formula [where p = ?q and ops = real_ops] j by blast
  then have b: "bpm real_ops ?q = 0" by (simp add: real_ops_def)
  from a b show ?thesis by simp
qed

text \<open>
  Claim C4 as stated fails for a record whose beat indices are \<open>-1\<close> and the largest
  \<^verbatim>\<open>int\<close>: their difference is \<open>2147483648\<close>, which no \<^verbatim>\<open>int\<close> holds; the
  subtraction wraps around to \<open>-2147483648\<close>, and at the sample rate 1 with the offsets
  0 and 1 \<^verbatim>\<open>bpm()\<close> is \<open>-128849018880\<close> where the formula of the spec gives
  \<open>128849018880\<close>.
\<close>

theorem bpm_overflow_counterexample:
  "sint (last_beat_index (adjusted_beat_grid wide_data))
     - sint (first_beat_index (adjusted_beat_grid wide_data)) = 2147483648
   \<and> bpm real_ops wide_data = - 128849018880
   \<and> spec_bpm_formula real_ops (sample_rate wide_data)
        (sint (first_beat_index (adjusted_beat_grid wide_data)))
        (first_beat_sample_offset (adjusted_beat_grid wide_data))
        (sint (last_beat_index (adjusted_beat_grid wide_data)))
        (last_beat_sample_offset (adjusted_beat_grid wide_data)) = 128849018880"
  by (simp add: wide_data_def sample_data_def bpm_def spec_bpm_formula_def real_ops_def)

text \<open>
  Claim C7. After \<^verbatim>\<open>set_hot_cues\<close> the record has exactly 8 hot cue slots: the first 8
  of the supplied cues, in their order, followed by default slots when fewer than 8 were
  supplied, and a default slot is not set. After \<^verbatim>\<open>set_loops\<close> the record has exactly
  8 loop slots in the same way, and a default slot has neither its start nor its end set.
\<close>

theorem set_hot_cues_eight_slots:
  "length (hot_cues (set_hot_cues ops c0 p cues)) = 8
   \<and> hot_cues (set_hot_cues ops c0 p cues)
       = take 8 cues @ replicate (8 - length cues) (default_hot_cue ops c0)
   \<and> (8 \<le> length cues \<longrightarrow> hot_cues (set_hot_cues ops c0 p cues) = take 8 cues)
   \<and> (i < 8 \<longrightarrow> i < length cues \<longrightarrow> hot_cues (set_hot_cues ops c0 p cues) ! i = cues ! i)
   \<and> (i < 8 \<longrightarrow> length cues \<le> i \<longrightarrow>
        hot_cues (set_hot_cues ops c0 p cues) ! i = default_hot_cue ops c0
        \<and> \<not> is_set (hot_cues (set_hot_cues ops c0 p cues) ! i))
   \<and> length (loops (set_loops ops c0 q ls)) = 8
   \<and> loops (set_loops ops c0 q ls)
       = take 8 ls @ replicate (8 - length ls) (default_loop ops c0)
   \<and> (8 \<le> length ls \<longrightarrow> loops (set_loops ops c0 q ls) = take 8 ls)
   \<and> (i < 8 \<longrightarrow> i < length ls \<longrightarrow> loops (set_loops ops c0 q ls) ! i = ls ! i)
   \<and> (i < 8 \<longrightarrow> length ls \<le> i \<longrightarrow>
        loops (set_loops ops c0 q ls) ! i = default_loop ops c0
        \<and> \<not> is_start_set (loops (set_loops ops c0 q ls) ! i)
        \<and> \<not> is_end_set (loops (set_loops ops c0 q ls) ! i))"
proof -
  have h: "hot_cues (set_hot_cues ops c0 p cues) = fill_slots 8 (default_hot_cue ops c0) cues"
    by (simp add: set_hot_cues_def)
  have l: "loops (set_loops ops c0 q ls) = fill_slots 8 (default_loop ops c0) ls"
    by (simp add: set_loops_def)
  have d: "\<not> is_set (default_hot_cue ops c0)"
    "\<not> is_start_set (default_loop ops c0)" "\<not> is_end_set (default_loop ops c0)"
    by (simp_all add: default_hot_cue_def default_loop_def)
  show ?thesis
    unfolding h l using d
    by (simp add: length_fill_slots fill_slots_nth) (simp add: fill_slots_eq)
qed

theorem set_hot_cues_eight_slots_witness:
  "hot_cues (set_hot_cues real_ops () (sample_data sample_grid)
       [sample_cue 1, sample_cue 2, sample_cue 3, sample_cue 4, sample_cue 5,
        sample_cue 6, sample_cue 7, sample_cue 8, sample_cue 9, sample_cue 10])
     = [sample_cue 1, sample_cue 2, sample_cue 3, sample_cue 4, sample_cue 5,
        sample_cue 6, sample_cue 7, sample_cue 8]
   \<and> hot_cues (set_hot_cues real_ops () (sample_data sample_grid)
       [sample_cue 1, sample_cue 2, sample_cue 3])
     = [sample_cue 1, sample_cue 2, sample_cue 3,
        default_hot_cue real_ops (), default_hot_cue real_ops (), default_hot_cue real_ops (),
        default_hot_cue real_ops (), default_hot_cue real_ops ()]
   \<and> \<not> is_set (default_hot_cue real_ops ())
   \<and> loops (set_loops real_ops () (sample_data sample_grid) [sample_loop 1])
     = [sample_loop 1,
        default_loop real_ops (), default_loop real_ops (), default_loop real_ops (),
        default_loop real_ops (), default_loop real_ops (), default_loop real_ops (),
        default_loop real_ops ()]
   \<and> \<not> is_start_set (default_loop real_ops ()) \<and> \<not> is_end_set (default_loop real_ops ())"
proof -
  let ?p = "sample_data sample_grid"
  let ?ten = "[sample_cue 1, sample_cue 2, sample_cue 3, sample_cue 4, sample_cue 5,
        sample_cue 6, sample_cue 7, sample_cue 8, sample_cue 9, sample_cue 10]"
  let ?three = "[sample_cue 1, sample_cue 2, sample_cue 3]"
  have eight: "(8::nat) = Suc (Suc (Suc (Suc (Suc (Suc (Suc (Suc 0)))))))"
    by simp
  have a: "hot_cues (set_hot_cues real_ops () ?p ?ten) = take 8 ?ten"
    using set_hot_cues_eight_slots [of real_ops "()" ?p ?ten 0 ?p "[]"] by simp
  have b: "hot_cues (set_hot_cues real_ops () ?p ?three)
             = take 8 ?three @ replicate (8 - length ?three) (default_hot_cue real_ops ())"
    using set_hot_cues_eight_slots [of real_ops "()" ?p ?three 0 ?p "[]"] by blast
  have c: "loops (set_loops real_ops () ?p [sample_loop 1])
             = take 8 [sample_loop 1] @ replicate (8 - length [sample_loop 1]) (default_loop real_ops ())"
    using set_hot_cues_eight_slots [of real_ops "()" ?p "[]" 0 ?p "[sample_loop 1]"] by blast
  have r5: "replicate 5 x = [x, x, x, x, x]" for x :: "'z"
    by (simp add: numeral_eq_Suc)
  have r7: "replicate 7 x = [x, x, x, x, x, x, x]" for x :: "'z"
    by (simp add: numeral_eq_Suc)
  from a have a': "hot_cues (set_hot_cues real_ops () ?p ?ten)
     = [sample_cue 1, sample_cue 2, sample_cue 3, sample_cue 4, sample_cue 5,
        sample_cue 6, sample_cue 7, sample_cue 8]"
    by (simp add: eight)
  from b have b': "hot_cues (set_hot_cues real_ops () ?p ?three)
     = [sample_cue 1, sample_cue 2, sample_cue 3,
        default_hot_cue real_ops (), default_hot_cue real_ops (), default_hot_cue real_ops (),
        default_hot_cue real_ops (), default_hot_cue real_ops ()]"
    by (simp add: r5)
  from c have c': "loops (set_loops real_ops () ?p [sample_loop 1])
     = [sample_loop 1,
        default_loop real_ops (), default_loop real_ops (), default_loop real_ops (),
        default_loop real_ops (), default_loop real_ops (), default_loop real_ops (),
        default_loop real_ops ()]"
    by (simp add: r7)
  have d: "\<not> is_set (default_hot_cue real_ops ())"
    "\<not> is_start_set (default_loop real_ops ())" "\<not> is_end_set (default_loop real_ops ())"
    by (simp_all add: default_hot_cue_def default_loop_def)
  from a' b' c' d show ?thesis by blast
qed

section \<open>Normalising a beat grid\<close>

lemma sint_fits: "int_fits k \<Longrightarrow> sint (word_of_int k :: cint) = k"
  by (simp add: int_fits_def sint_sbintrunc' signed_take_bit_int_eq_self)

lemma sint_cint_add_int:
  assumes "int_fits (sint (a :: cint) + k)"
  shows "sint (a + word_of_int k) = sint a + k"
proof -
  have "a + word_of_int k = (word_of_int (sint a + k) :: cint)"
    by simp
  with assms show ?thesis
    by (simp only: sint_fits)
qed



lemma sint_plus_four:
  assumes "int_fits (sint (a :: cint) + 4)"
  shows "sint (a - (- 4)) = sint a + 4"
proof -
  have "a - (- 4) = a + word_of_int 4" by simp
  with assms show ?thesis
    using sint_cint_add_int [of a 4] by simp
qed












section \<open>The crate hierarchy\<close>

lemma forest_acyclic: "forest db \<longleftrightarrow> acyclic (parent_rel db)"
  by (simp add: forest_def acyclic_def)

lemma parent_rel_functional:
  "(c, p) \<in> parent_rel db \<Longrightarrow> (c, p') \<in> parent_rel db \<Longrightarrow> p = p'"
  by (simp add: parent_rel_def)

lemma parent_rel_live: "(c, p) \<in> parent_rel db \<Longrightarrow> crates db c \<noteq> None"
  by (auto simp: parent_rel_def parent_of_def split: option.splits)

lemma finite_parent_rel:
  assumes "finite (dom (crates db))"
  shows "finite (parent_rel db)"
proof -
  have "parent_rel db \<subseteq> (\<lambda>c. (c, the (parent_of db c))) ` dom (crates db)"
    by (auto simp: parent_rel_def parent_of_def image_iff split: option.splits)
  with assms show ?thesis
    by (meson finite_imageI finite_subset)
qed

lemma wf_parent_rel:
  "forest db \<Longrightarrow> finite (dom (crates db)) \<Longrightarrow> wf ((parent_rel db)\<inverse>)"
  by (simp add: forest_acyclic finite_parent_rel finite_acyclic_wf_converse)

lemma ancestor_chain_has_wf:
  assumes "wf ((parent_rel db)\<inverse>)"
  shows "ancestor_chain_has db self cur = Some ((cur, self) \<in> (parent_rel db)\<^sup>*)"
  using assms
proof (induction cur rule: wf_induct_rule)
  case (less cur)
  show ?case
  proof (cases "cur = self")
    case True
    then show ?thesis by (subst ancestor_chain_has.simps) simp
  next
    case False
    show ?thesis
    proof (cases "parent_of db cur")
      case None
      then have "(cur, y) \<notin> parent_rel db" for y
        by (simp add: parent_rel_def)
      with False have "(cur, self) \<notin> (parent_rel db)\<^sup>*"
        by (auto elim: converse_rtranclE)
      with False None show ?thesis
        by (subst ancestor_chain_has.simps) simp
    next
      case (Some p)
      then have e: "(cur, p) \<in> parent_rel db"
        by (simp add: parent_rel_def)
      then have "(p, cur) \<in> (parent_rel db)\<inverse>"
        by simp
      then have ih: "ancestor_chain_has db self p = Some ((p, self) \<in> (parent_rel db)\<^sup>*)"
        by (rule less.IH)
      have "(cur, self) \<in> (parent_rel db)\<^sup>* \<longleftrightarrow> (p, self) \<in> (parent_rel db)\<^sup>*"
      proof
        assume "(cur, self) \<in> (parent_rel db)\<^sup>*"
        then show "(p, self) \<in> (parent_rel db)\<^sup>*"
        proof (cases rule: converse_rtranclE)
          case base
          with False show ?thesis by simp
        next
          case (step y)
          with e parent_rel_functional have "y = p" by blast
          with step show ?thesis by simp
        qed
      next
        assume "(p, self) \<in> (parent_rel db)\<^sup>*"
        with e show "(cur, self) \<in> (parent_rel db)\<^sup>*"
          by (rule converse_rtrancl_into_rtrancl)
      qed
      with False Some ih show ?thesis
        by (subst ancestor_chain_has.simps) simp
    qed
  qed
qed

lemma rtrancl_self_or_descendant:
  "(other, self) \<in> (parent_rel db)\<^sup>* \<longleftrightarrow> other = self \<or> descendant_of db other self"
  by (auto simp: descendant_of_def rtrancl_eq_or_trancl)

lemma set_parent_cases:
  assumes "wf ((parent_rel db)\<inverse>)"
  shows "set_parent db self other =
     (case crates db self of
        None \<Rightarrow> Some (Inl InvalidatedObject, db)
      | Some cr \<Rightarrow>
          (case crates db other of
             None \<Rightarrow> Some (Inl InvalidatedObject, db)
           | Some po \<Rightarrow>
               if other = self \<or> descendant_of db other self
               then Some (Inl CycleDetected, db)
               else Some (Inr (),
                      db\<lparr>crates := (crates db)(self \<mapsto> cr\<lparr>crate_parent := Some other\<rparr>)\<rparr>)))"
  by (simp add: set_parent_def ancestor_chain_has_wf [OF assms] rtrancl_self_or_descendant
      split: option.splits)

lemma set_parent_error_unchanged:
  assumes "set_parent db self other = Some (Inl e, db')"
  shows "db' = db"
  using assms
  by (auto simp: set_parent_def split: option.splits bool.splits)

lemma parent_rel_update:
  "parent_rel (db\<lparr>crates := (crates db)(c \<mapsto> cr)\<rparr>) =
     {(a, b). (a, b) \<in> parent_rel db \<and> a \<noteq> c} \<union> {(a, b). a = c \<and> crate_parent cr = Some b}"
  by (auto simp: parent_rel_def parent_of_def split: if_splits)

lemma forest_set_parent_update:
  assumes f: "forest db" and n: "(other, self) \<notin> (parent_rel db)\<^sup>*"
  shows "forest (db\<lparr>crates := (crates db)(self \<mapsto> cr\<lparr>crate_parent := Some other\<rparr>)\<rparr>)"
proof -
  let ?r0 = "{(a, b). (a, b) \<in> parent_rel db \<and> a \<noteq> self}"
  have sub: "?r0 \<subseteq> parent_rel db" by auto
  have eq: "parent_rel (db\<lparr>crates := (crates db)(self \<mapsto> cr\<lparr>crate_parent := Some other\<rparr>)\<rparr>)
              = insert (self, other) ?r0"
    by (auto simp: parent_rel_update)
  from f sub have a: "acyclic ?r0"
    by (auto simp: forest_acyclic intro: acyclic_subset)
  from n rtrancl_mono [OF sub] have "(other, self) \<notin> ?r0\<^sup>*"
    by blast
  with a show ?thesis
    unfolding forest_acyclic eq by simp
qed

lemma forest_create_crate:
  assumes "forest db"
  shows "forest (snd (create_crate db name))"
proof -
  have "parent_rel (snd (create_crate db name)) \<subseteq> parent_rel db"
    by (auto simp: create_crate_def parent_rel_def parent_of_def split: if_splits)
  with assms show ?thesis
    by (auto simp: forest_acyclic intro: acyclic_subset)
qed

lemma parent_rel_remove_crate:
  "parent_rel (snd (remove_crate db c)) \<subseteq> (parent_rel db)\<^sup>+"
proof (cases "crates db c")
  case None
  then show ?thesis by (auto simp: remove_crate_def)
next
  case (Some cr)
  show ?thesis
  proof
    fix x assume x: "x \<in> parent_rel (snd (remove_crate db c))"
    obtain a b where ab: "x = (a, b)" by (cases x)
    from x ab Some obtain ca where ac: "a \<noteq> c" and ca: "crates db a = Some ca"
      and p: "crate_parent (promote c (crate_parent cr) ca) = Some b"
      by (auto simp: remove_crate_def parent_rel_def parent_of_def split: if_splits option.splits)
    show "x \<in> (parent_rel db)\<^sup>+"
    proof (cases "crate_parent ca = Some c")
      case True
      with ca have 1: "(a, c) \<in> parent_rel db"
        by (simp add: parent_rel_def parent_of_def)
      from True p have "crate_parent cr = Some b" by (simp add: promote_def)
      with Some have 2: "(c, b) \<in> parent_rel db"
        by (simp add: parent_rel_def parent_of_def)
      from 1 2 ab show ?thesis by auto
    next
      case False
      with p have "crate_parent ca = Some b" by (simp add: promote_def)
      with ca ab show ?thesis
        by (auto simp: parent_rel_def parent_of_def)
    qed
  qed
qed

lemma forest_remove_crate:
  assumes "forest db"
  shows "forest (snd (remove_crate db c))"
proof -
  have "(parent_rel (snd (remove_crate db c)))\<^sup>+ \<subseteq> ((parent_rel db)\<^sup>+)\<^sup>+"
    by (rule trancl_mono_subset [OF parent_rel_remove_crate])
  then have "(parent_rel (snd (remove_crate db c)))\<^sup>+ \<subseteq> (parent_rel db)\<^sup>+"
    by simp
  with assms show ?thesis
    by (auto simp: forest_def)
qed

lemma finite_dom_remove_crate:
  assumes "finite (dom (crates db))"
  shows "finite (dom (crates (snd (remove_crate db c))))"
proof -
  have "dom (crates (snd (remove_crate db c))) \<subseteq> dom (crates db)"
    by (auto simp: remove_crate_def split: option.splits if_splits)
  with assms show ?thesis by (rule rev_finite_subset)
qed

lemma set_parent_step:
  assumes f: "forest db" and fin: "finite (dom (crates db))"
    and s: "set_parent db self other = Some (res, db')"
  shows "forest db' \<and> finite (dom (crates db'))"
proof -
  note w = wf_parent_rel [OF f fin]
  show ?thesis
  proof (cases "db' = db")
    case True
    with f fin show ?thesis by simp
  next
    case False
    with s obtain cr where cr: "crates db self = Some cr"
      and n: "\<not> (other = self \<or> descendant_of db other self)"
      and db': "db' = db\<lparr>crates := (crates db)(self \<mapsto> cr\<lparr>crate_parent := Some other\<rparr>)\<rparr>"
      unfolding set_parent_cases [OF w]
      by (auto split: option.splits if_splits)
    from n have "(other, self) \<notin> (parent_rel db)\<^sup>*"
      by (simp add: rtrancl_self_or_descendant)
    from forest_set_parent_update [OF f this] fin show ?thesis
      by (simp add: db')
  qed
qed

lemma reachable_invariant:
  "reachable db \<Longrightarrow> forest db \<and> finite (dom (crates db))"
proof (induction rule: reachable.induct)
  case reachable_empty
  show ?case
    by (simp add: forest_def parent_rel_def parent_of_def empty_crate_db_def)
next
  case (reachable_create db name)
  then show ?case
    by (simp add: forest_create_crate) (simp add: create_crate_def)
next
  case (reachable_set_parent db self other r db')
  then show ?case
    using set_parent_step by blast
next
  case (reachable_remove db c)
  then show ?case
    by (simp add: forest_remove_crate finite_dom_remove_crate)
qed

lemma reachable_crates_a_b: "reachable crates_a_b"
proof -
  have 1: "reachable (snd (create_crate empty_crate_db ''A''))"
    by (intro reachable.intros)
  have 2: "reachable (snd (create_crate (snd (create_crate empty_crate_db ''A'')) ''B''))"
    by (intro reachable.intros)
  have "snd (create_crate (snd (create_crate empty_crate_db ''A'')) ''B'') = crates_a_b"
    by (simp add: create_crate_def empty_crate_db_def crates_a_b_def)
  with 2 show ?thesis by simp
qed

lemma set_parent_a_over_b:
  "set_parent crates_a_b 2 1 = Some (Inr (), crates_a_over_b)"
  by (simp add: set_parent_def ancestor_chain_has.simps parent_of_def crates_a_b_def
      crates_a_over_b_def)

lemma reachable_crates_a_over_b: "reachable crates_a_over_b"
  using reachable_crates_a_b set_parent_a_over_b by (rule reachable_set_parent)

text \<open>
  Claim C6. Every hierarchy that is built from the empty one by creating crates, setting
  parents and removing crates is a forest: no crate is its own ancestor. On such a
  hierarchy \<^verbatim>\<open>set_parent\<close> returns; for a live crate it fails with \<^verbatim>\<open>CycleDetected\<close>
  when the proposed parent is the crate itself or one of its descendants, and only
  then; a call that fails leaves the hierarchy as it was; and the hierarchy after any
  call is a forest again.
\<close>

theorem set_parent_keeps_forest:
  "(reachable db \<longrightarrow> forest db)
   \<and> (reachable db \<longrightarrow> (\<exists>res. set_parent db self other = Some res))
   \<and> (reachable db \<longrightarrow> crates db self \<noteq> None \<longrightarrow>
        other = self \<or> descendant_of db other self \<longrightarrow>
        set_parent db self other = Some (Inl CycleDetected, db))
   \<and> (reachable db \<longrightarrow> set_parent db self other = Some (Inl CycleDetected, db') \<longrightarrow>
        other = self \<or> descendant_of db other self)
   \<and> (set_parent db self other = Some (Inl e, db') \<longrightarrow> db' = db)
   \<and> (reachable db \<longrightarrow> set_parent db self other = Some (res, db') \<longrightarrow> forest db')"
proof (intro conjI impI)
  assume "reachable db"
  then show "forest db" by (simp add: reachable_invariant)
next
  assume "reachable db"
  then have "wf ((parent_rel db)\<inverse>)"
    by (simp add: reachable_invariant wf_parent_rel)
  then show "\<exists>res. set_parent db self other = Some res"
    by (simp add: set_parent_cases split: option.splits)
next
  assume r: "reachable db" and live: "crates db self \<noteq> None"
    and c: "other = self \<or> descendant_of db other self"
  from r have w: "wf ((parent_rel db)\<inverse>)"
    by (simp add: reachable_invariant wf_parent_rel)
  from c live have "crates db other \<noteq> None"
    by (auto simp: descendant_of_def dest: tranclD parent_rel_live)
  with live c show "set_parent db self other = Some (Inl CycleDetected, db)"
    by (auto simp: set_parent_cases [OF w])
next
  assume r: "reachable db" and s: "set_parent db self other = Some (Inl CycleDetected, db')"
  from r have w: "wf ((parent_rel db)\<inverse>)"
    by (simp add: reachable_invariant wf_parent_rel)
  from s show "other = self \<or> descendant_of db other self"
    unfolding set_parent_cases [OF w]
    by (auto split: option.splits if_splits)
next
  assume "set_parent db self other = Some (Inl e, db')"
  then show "db' = db" by (rule set_parent_error_unchanged)
next
  assume r: "reachable db" and s: "set_parent db self other = Some (res, db')"
  from r have "forest db" "finite (dom (crates db))"
    by (simp_all add: reachable_invariant)
  from set_parent_step [OF this s] show "forest db'" by simp
qed

theorem set_parent_keeps_forest_witness:
  "reachable crates_a_b
   \<and> set_parent crates_a_b 2 1 = Some (Inr (), crates_a_over_b)
   \<and> reachable crates_a_over_b
   \<and> forest crates_a_over_b
   \<and> descendant_of crates_a_over_b 2 1
   \<and> set_parent crates_a_over_b 1 2 = Some (Inl CycleDetected, crates_a_over_b)
   \<and> set_parent crates_a_over_b 1 1 = Some (Inl CycleDetected, crates_a_over_b)"
proof -
  have r: "reachable crates_a_over_b" by (rule reachable_crates_a_over_b)
  have live: "crates crates_a_over_b 1 \<noteq> None"
    by (simp add: crates_a_over_b_def)
  have "(2, 1) \<in> parent_rel crates_a_over_b"
    by (simp add: parent_rel_def parent_of_def crates_a_over_b_def)
  then have d: "descendant_of crates_a_over_b 2 1"
    by (auto simp: descendant_of_def)
  have f: "forest crates_a_over_b"
    using set_parent_keeps_forest [of crates_a_over_b 1 2] r by blast
  have c: "set_parent crates_a_over_b 1 2 = Some (Inl CycleDetected, crates_a_over_b)"
    using set_parent_keeps_forest [of crates_a_over_b 1 2] r live d by blast
  have s: "set_parent crates_a_over_b 1 1 = Some (Inl CycleDetected, crates_a_over_b)"
    using set_parent_keeps_forest [of crates_a_over_b 1 1] r live by blast
  from reachable_crates_a_b set_parent_a_over_b r f d c s show ?thesis by blast
qed

end
